theory Spec2Isabelle
  imports Complex_Main "HOL-Library.Log_Nat"
begin

section \<open>The schema (supabase/migrations)\<close>

text \<open>
  A \<open>UUID\<close> column holds the canonical text of the identifier, a
  \<open>TIMESTAMP WITH TIME ZONE\<close> column an instant (milliseconds since the epoch).
  A column without \<open>NOT NULL\<close> is an \<open>option\<close>.
\<close>

type_synonym uuid = string
type_synonym timestamptz = int

datatype app_role = Admin | Guru | Siswa
datatype item_status = Tersedia | Dipinjam | Overdue | Rusak
datatype request_status = Pending | Approved | Rejected | Returned
datatype jurusan = Trkj | Ti | Trmm

record profile =
  pf_id :: uuid
  pf_full_name :: string
  pf_email :: string
  pf_nim_nip :: "string option"
  pf_jurusan :: "jurusan option"
  pf_kelas :: "string option"
  pf_angkatan :: "int option"

record user_role =
  ur_id :: uuid
  ur_user_id :: uuid
  ur_role :: app_role

record item =
  it_id :: uuid
  it_name :: string
  it_type :: string
  it_room_name :: string
  it_status :: "item_status option"
  it_condition_notes :: "string option"
  it_created_at :: "timestamptz option"
  it_updated_at :: "timestamptz option"

record request =
  rq_id :: uuid
  rq_item_id :: uuid
  rq_borrower_id :: uuid
  rq_purpose :: string
  rq_requested_at :: "timestamptz option"
  rq_start_time :: timestamptz
  rq_end_time :: timestamptz
  rq_status :: "request_status option"
  rq_approved_by :: "uuid option"
  rq_approved_at :: "timestamptz option"
  rq_approval_notes :: "string option"
  rq_returned_at :: "timestamptz option"
  rq_return_condition :: "string option"
  rq_created_at :: "timestamptz option"
  rq_updated_at :: "timestamptz option"

record activity_log =
  lg_id :: uuid
  lg_request_id :: uuid
  lg_action :: string
  lg_performed_by :: uuid
  lg_notes :: "string option"
  lg_created_at :: "timestamptz option"

text \<open>The five tables, each a list of rows in insertion order.\<close>

record db =
  profiles :: "profile list"
  user_roles :: "user_role list"
  items :: "item list"
  borrowing_requests :: "request list"
  activity_logs :: "activity_log list"

text \<open>What a statement can fail with (the SQLSTATE classes the schema can raise).\<close>

datatype pg_error =
    Insufficient_privilege
  | Not_null_violation
  | Unique_violation
  | Foreign_key_violation
  | Invalid_text_representation

section \<open>Row level security\<close>

text \<open>
  \<open>has_role(_user_id, _role)\<close>: a row of \<open>user_roles\<close> with that user and role
  exists. The caller \<open>auth.uid()\<close> is \<open>None\<close> for an anonymous session; a
  comparison with NULL is not true.
\<close>

definition has_role :: "db \<Rightarrow> uuid option \<Rightarrow> app_role \<Rightarrow> bool" where
  "has_role d uid r =
     (case uid of
        None \<Rightarrow> False
      | Some u \<Rightarrow> list_ex (\<lambda>x. ur_user_id x = u \<and> ur_role x = r) (user_roles d))"

datatype command = Select | Insert | Update | Delete

text \<open>
  \<open>CREATE POLICY ... FOR cmd USING (e) WITH CHECK (c)\<close>; \<open>FOR ALL\<close> is
  \<open>pol_for = None\<close>, an expression that is not written is \<open>None\<close>.
\<close>

datatype 'r policy =
  Policy (pol_for: "command option")
         (pol_using: "(db \<Rightarrow> uuid option \<Rightarrow> 'r \<Rightarrow> bool) option")
         (pol_with_check: "(db \<Rightarrow> uuid option \<Rightarrow> 'r \<Rightarrow> bool) option")

definition pol_applies :: "'r policy \<Rightarrow> command \<Rightarrow> bool" where
  "pol_applies p c = (pol_for p = None \<or> pol_for p = Some c)"

text \<open>
  The policies are permissive: a row passes when one policy of the command lets it pass,
  and no policy means no row. A policy's check on a new row is its \<open>WITH CHECK\<close>, or
  its \<open>USING\<close> when none is written.
\<close>

definition rls_using :: "'r policy list \<Rightarrow> command \<Rightarrow> db \<Rightarrow> uuid option \<Rightarrow> 'r \<Rightarrow> bool" where
  "rls_using ps c d uid row =
     list_ex (\<lambda>p. pol_applies p c \<and>
                  (case pol_using p of None \<Rightarrow> False | Some e \<Rightarrow> e d uid row)) ps"

definition rls_check :: "'r policy list \<Rightarrow> command \<Rightarrow> db \<Rightarrow> uuid option \<Rightarrow> 'r \<Rightarrow> bool" where
  "rls_check ps c d uid row =
     list_ex (\<lambda>p. pol_applies p c \<and>
                  (case pol_with_check p of
                     Some e \<Rightarrow> e d uid row
                   | None \<Rightarrow> (case pol_using p of None \<Rightarrow> False | Some e \<Rightarrow> e d uid row))) ps"

text \<open>
  An \<open>UPDATE\<close> or \<open>DELETE\<close> with a \<open>WHERE\<close> clause reads the row, so the row has to
  pass the \<open>SELECT\<close> policies too; a row that does not pass is skipped without an error.
\<close>

definition rls_target :: "'r policy list \<Rightarrow> command \<Rightarrow> db \<Rightarrow> uuid option \<Rightarrow> 'r \<Rightarrow> bool" where
  "rls_target ps c d uid row = (rls_using ps Select d uid row \<and> rls_using ps c d uid row)"

definition items_policies :: "item policy list" where
  "items_policies =
     [ Policy (Some Select) (Some (\<lambda>d uid r. True)) None,
       Policy None (Some (\<lambda>d uid r. has_role d uid Admin \<or> has_role d uid Guru)) None ]"

definition borrowing_requests_policies :: "request policy list" where
  "borrowing_requests_policies =
     [ Policy (Some Select)
         (Some (\<lambda>d uid r. Some (rq_borrower_id r) = uid \<or>
                           has_role d uid Admin \<or> has_role d uid Guru)) None,
       Policy (Some Insert) None (Some (\<lambda>d uid r. Some (rq_borrower_id r) = uid)),
       Policy (Some Update)
         (Some (\<lambda>d uid r. has_role d uid Admin \<or> has_role d uid Guru)) None ]"

definition activity_logs_policies :: "activity_log policy list" where
  "activity_logs_policies =
     [ Policy (Some Select) (Some (\<lambda>d uid r. True)) None,
       Policy (Some Insert) None (Some (\<lambda>d uid r. True)) ]"

section \<open>Statements on the tables\<close>

text \<open>
  Every statement runs as the caller \<open>uid\<close> at the server time \<open>now\<close>. A statement
  that fails leaves the database as it was.
\<close>

definition select_items :: "db \<Rightarrow> uuid option \<Rightarrow> item list" where
  "select_items d uid = filter (rls_using items_policies Select d uid) (items d)"

definition select_requests :: "db \<Rightarrow> uuid option \<Rightarrow> request list" where
  "select_requests d uid =
     filter (rls_using borrowing_requests_policies Select d uid) (borrowing_requests d)"

definition select_logs :: "db \<Rightarrow> uuid option \<Rightarrow> activity_log list" where
  "select_logs d uid = filter (rls_using activity_logs_policies Select d uid) (activity_logs d)"

text \<open>
  \<open>INSERT INTO borrowing_requests (item_id, borrower_id, purpose, start_time, end_time)\<close>:
  the other columns take their defaults (\<open>new_id\<close> is what \<open>uuid_generate_v4()\<close>
  returns). The new row is checked against the policies, then the primary key, then the
  foreign keys.
\<close>

definition new_request ::
  "timestamptz \<Rightarrow> uuid \<Rightarrow> uuid \<Rightarrow> uuid \<Rightarrow> string \<Rightarrow> timestamptz \<Rightarrow> timestamptz \<Rightarrow> request" where
  "new_request now new_id item_id borrower_id purpose start_time end_time =
     \<lparr> rq_id = new_id, rq_item_id = item_id, rq_borrower_id = borrower_id,
       rq_purpose = purpose, rq_requested_at = Some now,
       rq_start_time = start_time, rq_end_time = end_time,
       rq_status = Some Pending, rq_approved_by = None, rq_approved_at = None,
       rq_approval_notes = None, rq_returned_at = None, rq_return_condition = None,
       rq_created_at = Some now, rq_updated_at = Some now \<rparr>"

definition insert_request ::
  "db \<Rightarrow> uuid option \<Rightarrow> timestamptz \<Rightarrow> uuid \<Rightarrow> uuid \<Rightarrow> uuid \<Rightarrow> string \<Rightarrow>
   timestamptz \<Rightarrow> timestamptz \<Rightarrow> pg_error + db" where
  "insert_request d uid now new_id item_id borrower_id purpose start_time end_time =
     (let row = new_request now new_id item_id borrower_id purpose start_time end_time in
      if \<not> rls_check borrowing_requests_policies Insert d uid row
        then Inl Insufficient_privilege
      else if new_id \<in> set (map rq_id (borrowing_requests d))
        then Inl Unique_violation
      else if item_id \<notin> set (map it_id (items d)) \<or>
              borrower_id \<notin> set (map pf_id (profiles d))
        then Inl Foreign_key_violation
      else Inr (d\<lparr>borrowing_requests := borrowing_requests d @ [row]\<rparr>))"

text \<open>
  \<open>UPDATE borrowing_requests SET status, approved_by, approved_at, approval_notes
  WHERE w\<close>, the columns the portal writes. The trigger
  \<open>update_borrowing_requests_updated_at\<close> sets \<open>updated_at\<close> on every row updated.
\<close>

record request_patch =
  set_status :: "request_status option"
  set_approved_by :: "uuid option"
  set_approved_at :: "timestamptz option"
  set_approval_notes :: "string option"

definition patch_request :: "timestamptz \<Rightarrow> request_patch \<Rightarrow> request \<Rightarrow> request" where
  "patch_request now p r =
     r\<lparr> rq_status := set_status p, rq_approved_by := set_approved_by p,
        rq_approved_at := set_approved_at p, rq_approval_notes := set_approval_notes p,
        rq_updated_at := Some now \<rparr>"

definition update_requests ::
  "db \<Rightarrow> uuid option \<Rightarrow> timestamptz \<Rightarrow> request_patch \<Rightarrow> (request \<Rightarrow> bool) \<Rightarrow> pg_error + db" where
  "update_requests d uid now p w =
     (let hit = (\<lambda>r. w r \<and> rls_target borrowing_requests_policies Update d uid r);
          rows = filter hit (borrowing_requests d) in
      if list_ex (\<lambda>r. \<not> rls_check borrowing_requests_policies Update d uid
                             (patch_request now p r)) rows
        then Inl Insufficient_privilege
      else if rows \<noteq> [] \<and>
              (case set_approved_by p of None \<Rightarrow> False
               | Some a \<Rightarrow> a \<notin> set (map pf_id (profiles d)))
        then Inl Foreign_key_violation
      else Inr (d\<lparr>borrowing_requests :=
                    map (\<lambda>r. if hit r then patch_request now p r else r)
                        (borrowing_requests d)\<rparr>))"

text \<open>
  \<open>DELETE FROM borrowing_requests WHERE w\<close>; \<open>activity_logs.request_id\<close> is
  \<open>ON DELETE CASCADE\<close>, and a cascade is not subject to the policies.
\<close>

definition delete_requests :: "db \<Rightarrow> uuid option \<Rightarrow> (request \<Rightarrow> bool) \<Rightarrow> pg_error + db" where
  "delete_requests d uid w =
     (let hit = (\<lambda>r. w r \<and> rls_target borrowing_requests_policies Delete d uid r);
          gone = map rq_id (filter hit (borrowing_requests d)) in
      Inr (d\<lparr> borrowing_requests := filter (\<lambda>r. \<not> hit r) (borrowing_requests d),
              activity_logs := filter (\<lambda>l. lg_request_id l \<notin> set gone) (activity_logs d) \<rparr>))"

text \<open>
  \<open>UPDATE items SET status = s WHERE w\<close>, with the trigger
  \<open>update_items_updated_at\<close>.
\<close>

definition update_items ::
  "db \<Rightarrow> uuid option \<Rightarrow> timestamptz \<Rightarrow> item_status option \<Rightarrow> (item \<Rightarrow> bool) \<Rightarrow> pg_error + db" where
  "update_items d uid now s w =
     (let hit = (\<lambda>i. w i \<and> rls_target items_policies Update d uid i);
          upd = (\<lambda>i. i\<lparr>it_status := s, it_updated_at := Some now\<rparr>) in
      if list_ex (\<lambda>i. \<not> rls_check items_policies Update d uid (upd i)) (filter hit (items d))
        then Inl Insufficient_privilege
      else Inr (d\<lparr>items := map (\<lambda>i. if hit i then upd i else i) (items d)\<rparr>))"

text \<open>
  \<open>DELETE FROM items WHERE w\<close>; \<open>borrowing_requests.item_id\<close> is
  \<open>ON DELETE CASCADE\<close>, and so is \<open>activity_logs.request_id\<close> after it.
\<close>

definition delete_items :: "db \<Rightarrow> uuid option \<Rightarrow> (item \<Rightarrow> bool) \<Rightarrow> pg_error + db" where
  "delete_items d uid w =
     (let hit = (\<lambda>i. w i \<and> rls_target items_policies Delete d uid i);
          gone_items = map it_id (filter hit (items d));
          gone_requests =
            map rq_id (filter (\<lambda>r. rq_item_id r \<in> set gone_items) (borrowing_requests d)) in
      Inr (d\<lparr> items := filter (\<lambda>i. \<not> hit i) (items d),
              borrowing_requests :=
                filter (\<lambda>r. rq_item_id r \<notin> set gone_items) (borrowing_requests d),
              activity_logs :=
                filter (\<lambda>l. lg_request_id l \<notin> set gone_requests) (activity_logs d) \<rparr>))"

text \<open>
  \<open>INSERT INTO activity_logs (request_id, action, performed_by, notes)\<close>. The client
  leaves out a column whose value is \<open>undefined\<close>, and \<open>request_id\<close> is
  \<open>NOT NULL\<close> without a default.
\<close>

definition insert_log ::
  "db \<Rightarrow> uuid option \<Rightarrow> timestamptz \<Rightarrow> uuid \<Rightarrow> uuid option \<Rightarrow> string \<Rightarrow> uuid \<Rightarrow>
   string option \<Rightarrow> pg_error + db" where
  "insert_log d uid now new_id request_id action performed_by notes =
     (case request_id of
        None \<Rightarrow> Inl Not_null_violation
      | Some rid \<Rightarrow>
         (let row = \<lparr> lg_id = new_id, lg_request_id = rid, lg_action = action,
                      lg_performed_by = performed_by, lg_notes = notes,
                      lg_created_at = Some now \<rparr> in
          if \<not> rls_check activity_logs_policies Insert d uid row
            then Inl Insufficient_privilege
          else if new_id \<in> set (map lg_id (activity_logs d))
            then Inl Unique_violation
          else if rid \<notin> set (map rq_id (borrowing_requests d)) \<or>
                  performed_by \<notin> set (map pf_id (profiles d))
            then Inl Foreign_key_violation
          else Inr (d\<lparr>activity_logs := activity_logs d @ [row]\<rparr>)))"

text \<open>\<open>UPDATE activity_logs SET action, notes WHERE w\<close> and \<open>DELETE FROM activity_logs\<close>.\<close>

definition update_logs ::
  "db \<Rightarrow> uuid option \<Rightarrow> string \<Rightarrow> string option \<Rightarrow> (activity_log \<Rightarrow> bool) \<Rightarrow> pg_error + db" where
  "update_logs d uid action notes w =
     (let hit = (\<lambda>l. w l \<and> rls_target activity_logs_policies Update d uid l);
          upd = (\<lambda>l. l\<lparr>lg_action := action, lg_notes := notes\<rparr>) in
      if list_ex (\<lambda>l. \<not> rls_check activity_logs_policies Update d uid (upd l))
                 (filter hit (activity_logs d))
        then Inl Insufficient_privilege
      else Inr (d\<lparr>activity_logs := map (\<lambda>l. if hit l then upd l else l) (activity_logs d)\<rparr>))"

definition delete_logs :: "db \<Rightarrow> uuid option \<Rightarrow> (activity_log \<Rightarrow> bool) \<Rightarrow> pg_error + db" where
  "delete_logs d uid w =
     (let hit = (\<lambda>l. w l \<and> rls_target activity_logs_policies Delete d uid l) in
      Inr (d\<lparr>activity_logs := filter (\<lambda>l. \<not> hit l) (activity_logs d)\<rparr>))"

section \<open>The portal's handlers\<close>

text \<open>What a handler leaves on the screen: a toast, nothing, or an exception it did not catch.\<close>

datatype outcome =
    Toast_error string
  | Toast_success string
  | No_toast
  | Thrown string

text \<open>An awaited statement whose \<open>error\<close> the handler never reads.\<close>

definition error_ignored :: "db \<Rightarrow> pg_error + db \<Rightarrow> db" where
  "error_ignored d r = (case r of Inl e \<Rightarrow> d | Inr d' \<Rightarrow> d')"

subsection \<open>Items.tsx: handleBorrowRequest\<close>

text \<open>
  \<open>ORDER BY created_at DESC LIMIT 1\<close>: NULL sorts first in a descending order. The
  order among rows of equal \<open>created_at\<close> is not fixed by the database; here the
  earlier row of the table stays.
\<close>

fun sorts_before :: "timestamptz option \<Rightarrow> timestamptz option \<Rightarrow> bool" where
  "sorts_before None (Some b) = True"
| "sorts_before (Some a) (Some b) = (b < a)"
| "sorts_before a None = False"

definition latest_request :: "request list \<Rightarrow> request option" where
  "latest_request rows =
     fold (\<lambda>r best. case best of
                       None \<Rightarrow> Some r
                     | Some b \<Rightarrow> if sorts_before (rq_created_at r) (rq_created_at b)
                                then Some r else Some b) rows None"

text \<open>
  The component's state is \<open>selectedItem\<close>, \<open>purpose\<close>, \<open>startTime\<close> and
  \<open>endTime\<close> (the text of the two \<open>datetime-local\<close> inputs). \<open>js_date\<close> is
  \<open>new Date(text)\<close>, \<open>None\<close> for an invalid date, whose \<open>toISOString()\<close> throws a
  RangeError. \<open>user\<close> is the session's user, at once \<open>supabase.auth.getUser()\<close> and
  the database's \<open>auth.uid()\<close>; \<open>request_id\<close> and \<open>log_id\<close> are what
  \<open>uuid_generate_v4()\<close> returns for the two inserts.
\<close>

definition handleBorrowRequest ::
  "(string \<Rightarrow> timestamptz option) \<Rightarrow> db \<Rightarrow> uuid option \<Rightarrow> timestamptz \<Rightarrow> uuid \<Rightarrow> uuid \<Rightarrow>
   item option \<Rightarrow> string \<Rightarrow> string \<Rightarrow> string \<Rightarrow> outcome \<times> db" where
  "handleBorrowRequest js_date d user now request_id log_id selectedItem purpose startTime endTime =
     (case selectedItem of
        None \<Rightarrow> (Toast_error ''Mohon lengkapi semua field'', d)
      | Some it \<Rightarrow>
        if purpose = [] \<or> startTime = [] \<or> endTime = []
          then (Toast_error ''Mohon lengkapi semua field'', d)
        else
         (case user of
            None \<Rightarrow> (No_toast, d)
          | Some u \<Rightarrow>
             (case js_date startTime of
                None \<Rightarrow> (Thrown ''RangeError'', d)
              | Some start_time \<Rightarrow>
                 (case js_date endTime of
                    None \<Rightarrow> (Thrown ''RangeError'', d)
                  | Some end_time \<Rightarrow>
                     (case insert_request d user now request_id (it_id it) u purpose
                             start_time end_time of
                        Inl requestError \<Rightarrow> (Toast_error ''Gagal membuat permintaan'', d)
                      | Inr d1 \<Rightarrow>
                         (Toast_success ''Permintaan peminjaman berhasil dibuat'',
                          error_ignored d1
                            (insert_log d1 user now log_id
                               (map_option rq_id (latest_request (select_requests d1 user)))
                               ''request'' u
                               (Some (''Mengajukan peminjaman '' @ it_name it)))))))))"

subsection \<open>Requests page: handleApproveReject\<close>

text \<open>The \<open>BorrowingRequest\<close> interface: a request joined with its item and its borrower.\<close>

record joined_item =
  ji_name :: string
  ji_type :: string
  ji_room_name :: string

record joined_profile =
  jp_full_name :: string
  jp_nim_nip :: "string option"

record BorrowingRequest =
  br_id :: uuid
  br_purpose :: string
  br_requested_at :: "timestamptz option"
  br_start_time :: timestamptz
  br_end_time :: timestamptz
  br_status :: "request_status option"
  br_approval_notes :: "string option"
  br_items :: joined_item
  br_profiles :: joined_profile

text \<open>The handler's parameter \<open>status: 'approved' | 'rejected'\<close>.\<close>

datatype decision = Decide_approved | Decide_rejected

fun decision_status :: "decision \<Rightarrow> request_status" where
  "decision_status Decide_approved = Approved"
| "decision_status Decide_rejected = Rejected"

text \<open>
  \<open>UPDATE items SET status = 'dipinjam' WHERE id = text\<close>, with the text the client
  sends for the \<open>UUID\<close> column: \<open>uuid_in\<close> is the database's reading of a text as
  a \<open>UUID\<close>, \<open>None\<close> where the text is not one and the statement fails.
\<close>

definition update_item_status_by_id_text ::
  "(string \<Rightarrow> uuid option) \<Rightarrow> db \<Rightarrow> uuid option \<Rightarrow> timestamptz \<Rightarrow> item_status \<Rightarrow> string \<Rightarrow>
   pg_error + db" where
  "update_item_status_by_id_text uuid_in d uid now s id_text =
     (case uuid_in id_text of
        None \<Rightarrow> Inl Invalid_text_representation
      | Some i \<Rightarrow> update_items d uid now (Some s) (\<lambda>it. it_id it = i))"

text \<open>
  The component's state is \<open>approvalNotes\<close> and \<open>selectedRequest\<close>;
  \<open>client_now\<close> is the browser's \<open>new Date()\<close>, \<open>now\<close> the server's clock.
\<close>

definition handleApproveReject ::
  "(string \<Rightarrow> uuid option) \<Rightarrow> db \<Rightarrow> uuid option \<Rightarrow> timestamptz \<Rightarrow> timestamptz \<Rightarrow> uuid \<Rightarrow>
   string \<Rightarrow> BorrowingRequest option \<Rightarrow> uuid \<Rightarrow> decision \<Rightarrow> outcome \<times> db" where
  "handleApproveReject uuid_in d user client_now now log_id approvalNotes selectedRequest
       requestId status =
     (case user of
        None \<Rightarrow> (No_toast, d)
      | Some u \<Rightarrow>
         (case update_requests d user now
                 \<lparr> set_status = Some (decision_status status), set_approved_by = Some u,
                   set_approved_at = Some client_now,
                   set_approval_notes = Some approvalNotes \<rparr>
                 (\<lambda>r. rq_id r = requestId) of
            Inl updateError \<Rightarrow> (Toast_error ''Gagal memproses permintaan'', d)
          | Inr d1 \<Rightarrow>
             (let d2 = (case selectedRequest of
                          None \<Rightarrow> d1
                        | Some sel \<Rightarrow>
                           if status = Decide_approved
                             then error_ignored d1
                                    (update_item_status_by_id_text uuid_in d1 user now Dipinjam
                                       (ji_name (br_items sel)))
                             else d1);
                  d3 = error_ignored d2
                         (insert_log d2 user now log_id (Some requestId)
                            (if status = Decide_approved then ''approve'' else ''reject'')
                            u (Some approvalNotes))
              in (Toast_success (if status = Decide_approved then ''Permintaan disetujui''
                                 else ''Permintaan ditolak''), d3))))"

subsection \<open>Dashboard.tsx: fetchStats\<close>

record dashboard_stats =
  st_totalItems :: nat
  st_availableItems :: nat
  st_borrowedItems :: nat
  st_overdueItems :: nat
  st_pendingRequests :: nat
  st_myActiveRequests :: nat

text \<open>\<open>profile_id\<close> is \<open>profile?.id\<close> of the signed-in user.\<close>

definition fetchStats :: "db \<Rightarrow> uuid option \<Rightarrow> uuid option \<Rightarrow> dashboard_stats" where
  "fetchStats d uid profile_id =
     (let its = select_items d uid; requests = select_requests d uid in
      \<lparr> st_totalItems = length its,
        st_availableItems = length (filter (\<lambda>i. it_status i = Some Tersedia) its),
        st_borrowedItems = length (filter (\<lambda>i. it_status i = Some Dipinjam) its),
        st_overdueItems = length (filter (\<lambda>i. it_status i = Some Overdue) its),
        st_pendingRequests = length (filter (\<lambda>r. rq_status r = Some Pending) requests),
        st_myActiveRequests =
          length (filter (\<lambda>r. Some (rq_borrower_id r) = profile_id \<and>
                              rq_status r \<in> {Some Pending, Some Approved}) requests) \<rparr>)"

subsection \<open>Reports.tsx: fetchReportData\<close>

record BorrowingStats =
  bs_totalRequests :: nat
  bs_approvedRequests :: nat
  bs_rejectedRequests :: nat
  bs_activeLoans :: nat
  bs_returnedItems :: nat
  bs_overdueItems :: nat

text \<open>\<open>now\<close> is the browser's \<open>new Date()\<close>; a timestamp that is not NULL is truthy.\<close>

definition report_stats :: "db \<Rightarrow> uuid option \<Rightarrow> timestamptz \<Rightarrow> BorrowingStats" where
  "report_stats d uid now =
     (let requests = select_requests d uid in
      \<lparr> bs_totalRequests = length requests,
        bs_approvedRequests = length (filter (\<lambda>r. rq_status r = Some Approved) requests),
        bs_rejectedRequests = length (filter (\<lambda>r. rq_status r = Some Rejected) requests),
        bs_activeLoans =
          length (filter (\<lambda>r. rq_status r = Some Approved \<and> rq_returned_at r = None) requests),
        bs_returnedItems = length (filter (\<lambda>r. rq_returned_at r \<noteq> None) requests),
        bs_overdueItems =
          length (filter (\<lambda>r. rq_status r = Some Approved \<and> rq_returned_at r = None \<and>
                              rq_end_time r < now) requests) \<rparr>)"

record DepartmentStats =
  ds_jurusan :: string
  ds_totalRequests :: nat
  ds_approvedRequests :: nat

fun jurusan_text :: "jurusan \<Rightarrow> string" where
  "jurusan_text Trkj = ''trkj''"
| "jurusan_text Ti = ''ti''"
| "jurusan_text Trmm = ''trmm''"

text \<open>\<open>record.profiles?.jurusan || 'Tidak Diketahui'\<close>, the borrower's profile joined in.\<close>

definition record_jurusan :: "db \<Rightarrow> request \<Rightarrow> string" where
  "record_jurusan d r =
     (case find (\<lambda>p. pf_id p = rq_borrower_id r) (profiles d) of
        None \<Rightarrow> ''Tidak Diketahui''
      | Some p \<Rightarrow> (case pf_jurusan p of
                     None \<Rightarrow> ''Tidak Diketahui''
                   | Some j \<Rightarrow> jurusan_text j))"

text \<open>
  A JavaScript \<open>Map\<close> keeps its keys in the order of their first \<open>set\<close>; setting a
  key that is there keeps its place.
\<close>

definition map_set :: "('k \<times> 'v) list \<Rightarrow> 'k \<Rightarrow> 'v \<Rightarrow> ('k \<times> 'v) list" where
  "map_set m k v =
     (if k \<in> set (map fst m) then map (\<lambda>kv. if fst kv = k then (k, v) else kv) m
      else m @ [(k, v)])"

text \<open>
  One turn of the \<open>forEach\<close> over \<open>deptStatsData\<close>: the entry of the record's
  department, made with both counts 0 when the map has none, gets the record counted.
\<close>

definition dept_count ::
  "string \<times> request_status option \<Rightarrow> (string \<times> DepartmentStats) list \<Rightarrow>
   (string \<times> DepartmentStats) list" where
  "dept_count rec deptMap =
     (let jur = fst rec;
          stats = (case map_of deptMap jur of
                     None \<Rightarrow> \<lparr> ds_jurusan = jur, ds_totalRequests = 0, ds_approvedRequests = 0 \<rparr>
                   | Some s \<Rightarrow> s) in
      map_set deptMap jur
        (stats\<lparr> ds_totalRequests := ds_totalRequests stats + 1,
                ds_approvedRequests :=
                  (if snd rec = Some Approved then ds_approvedRequests stats + 1
                   else ds_approvedRequests stats) \<rparr>))"

definition deptStatsData :: "db \<Rightarrow> uuid option \<Rightarrow> (string \<times> request_status option) list" where
  "deptStatsData d uid = map (\<lambda>r. (record_jurusan d r, rq_status r)) (select_requests d uid)"

text \<open>
  \<open>Array.from(deptMap.values()).sort((a, b) => b.totalRequests - a.totalRequests)\<close>:
  a stable sort, the larger total first.
\<close>

definition departmentStats :: "db \<Rightarrow> uuid option \<Rightarrow> DepartmentStats list" where
  "departmentStats d uid =
     sort_key (\<lambda>s. - int (ds_totalRequests s))
       (map snd (fold dept_count (deptStatsData d uid) []))"

section \<open>JavaScript numbers\<close>

text \<open>
  A Number is an IEEE 754 binary64 value. The portal's arithmetic never leaves the
  values that are not negative: \<open>Finite k e\<close> is \<open>k * 2 ^ e\<close> with \<open>0 \<le> k\<close>.
\<close>

datatype number = Finite int int | Infinity | NaN

definition number_value :: "number \<Rightarrow> rat option" where
  "number_value x =
     (case x of Finite k e \<Rightarrow> Some (of_int k * 2 powi e) | Infinity \<Rightarrow> None | NaN \<Rightarrow> None)"

text \<open>The integer nearest to \<open>n / d\<close>, the even one of two that are as near.\<close>

definition round_half_even :: "int \<Rightarrow> int \<Rightarrow> int" where
  "round_half_even n d =
     (let q = n div d; r = n mod d in
      if 2 * r < d then q else if d < 2 * r then q + 1 else if even q then q else q + 1)"

text \<open>The exponent \<open>e\<close> with \<open>2 ^ e \<le> n / d < 2 ^ (e + 1)\<close>, for positive \<open>n\<close>, \<open>d\<close>.\<close>

definition binade :: "int \<Rightarrow> int \<Rightarrow> int" where
  "binade n d =
     (let e0 = bitlen n - bitlen d in
      if (if 0 \<le> e0 then n < d * 2 ^ nat e0 else n * 2 ^ nat (- e0) < d) then e0 - 1 else e0)"

text \<open>
  The binary64 value of the exact quotient \<open>n / d\<close> (\<open>0 \<le> n\<close>, \<open>0 < d\<close>), rounded
  to nearest, ties to even: 53 significant bits, the spacing no finer than \<open>2 ^ -1074\<close>,
  and infinity from \<open>2 ^ 1024\<close> on.
\<close>

definition to_double :: "int \<Rightarrow> int \<Rightarrow> number" where
  "to_double n d =
     (if n = 0 then Finite 0 0
      else
        (let e = binade n d;
             s = min (52 - e) 1074;
             k = (if 0 \<le> s then round_half_even (n * 2 ^ nat s) d
                  else round_half_even n (d * 2 ^ nat (- s))) in
         if 1024 \<le> e \<or> (e = 1023 \<and> k = 2 ^ 53) then Infinity else Finite k (- s)))"

definition numerator :: "int \<Rightarrow> int \<Rightarrow> int" where
  "numerator k e = (if 0 \<le> e then k * 2 ^ nat e else k)"

definition denominator :: "int \<Rightarrow> int \<Rightarrow> int" where
  "denominator k e = (if 0 \<le> e then 1 else 2 ^ nat (- e))"

text \<open>\<open>x / y\<close> and \<open>x * y\<close> on values that are not negative.\<close>

fun js_divide :: "number \<Rightarrow> number \<Rightarrow> number" where
  "js_divide (Finite k1 e1) (Finite k2 e2) =
     (if k2 = 0 then (if k1 = 0 then NaN else Infinity)
      else to_double (numerator k1 e1 * denominator k2 e2) (denominator k1 e1 * numerator k2 e2))"
| "js_divide (Finite k1 e1) Infinity = Finite 0 0"
| "js_divide Infinity (Finite k2 e2) = Infinity"
| "js_divide Infinity Infinity = NaN"
| "js_divide NaN y = NaN"
| "js_divide x NaN = NaN"

fun js_times :: "number \<Rightarrow> number \<Rightarrow> number" where
  "js_times (Finite k1 e1) (Finite k2 e2) =
     to_double (numerator k1 e1 * numerator k2 e2) (denominator k1 e1 * denominator k2 e2)"
| "js_times (Finite k1 e1) Infinity = (if k1 = 0 then NaN else Infinity)"
| "js_times Infinity (Finite k2 e2) = (if k2 = 0 then NaN else Infinity)"
| "js_times Infinity Infinity = Infinity"
| "js_times NaN y = NaN"
| "js_times x NaN = NaN"

text \<open>
  \<open>Math.round\<close>: the integer nearest to the value, the larger one of two that are as
  near.
\<close>

fun Math_round :: "number \<Rightarrow> number" where
  "Math_round (Finite k e) =
     Finite ((2 * numerator k e + denominator k e) div (2 * denominator k e)) 0"
| "Math_round Infinity = Infinity"
| "Math_round NaN = NaN"

text \<open>The length of an array, as a Number.\<close>

definition of_count :: "nat \<Rightarrow> number" where
  "of_count n = Finite (int n) 0"

subsection \<open>Reports.tsx: the percentages on the page\<close>

text \<open>\<open>Math.round((part / whole) * 100)\<close>.\<close>

definition percent_of :: "nat \<Rightarrow> nat \<Rightarrow> number" where
  "percent_of part whole =
     Math_round (js_times (js_divide (of_count part) (of_count whole)) (of_count 100))"

text \<open>The cards \<open>Disetujui\<close> and \<open>Ditolak\<close>: the number before \<open>% dari total\<close>.\<close>

definition approved_percent :: "BorrowingStats \<Rightarrow> number" where
  "approved_percent stats =
     (if bs_totalRequests stats > 0
        then percent_of (bs_approvedRequests stats) (bs_totalRequests stats)
      else Finite 0 0)"

definition rejected_percent :: "BorrowingStats \<Rightarrow> number" where
  "rejected_percent stats =
     (if bs_totalRequests stats > 0
        then percent_of (bs_rejectedRequests stats) (bs_totalRequests stats)
      else Finite 0 0)"

text \<open>The column \<open>Tingkat Persetujuan\<close> of a department's row.\<close>

definition dept_percent :: "DepartmentStats \<Rightarrow> number" where
  "dept_percent dept = percent_of (ds_approvedRequests dept) (ds_totalRequests dept)"

section \<open>The statements a caller can send\<close>

text \<open>
  The statements on the three tables of the ledger that the data API takes from a
  signed-in or anonymous caller; the policies decide what each does.
\<close>

datatype api_call =
    Insert_request timestamptz uuid uuid uuid string timestamptz timestamptz
  | Update_requests timestamptz request_patch "request \<Rightarrow> bool"
  | Delete_requests "request \<Rightarrow> bool"
  | Update_items timestamptz "item_status option" "item \<Rightarrow> bool"
  | Delete_items "item \<Rightarrow> bool"
  | Insert_log timestamptz uuid "uuid option" string uuid "string option"
  | Update_logs string "string option" "activity_log \<Rightarrow> bool"
  | Delete_logs "activity_log \<Rightarrow> bool"

fun run_api :: "db \<Rightarrow> uuid option \<Rightarrow> api_call \<Rightarrow> pg_error + db" where
  "run_api d uid (Insert_request now new_id item_id borrower_id purpose start_time end_time) =
     insert_request d uid now new_id item_id borrower_id purpose start_time end_time"
| "run_api d uid (Update_requests now p w) = update_requests d uid now p w"
| "run_api d uid (Delete_requests w) = delete_requests d uid w"
| "run_api d uid (Update_items now s w) = update_items d uid now s w"
| "run_api d uid (Delete_items w) = delete_items d uid w"
| "run_api d uid (Insert_log now new_id request_id action performed_by notes) =
     insert_log d uid now new_id request_id action performed_by notes"
| "run_api d uid (Update_logs action notes w) = update_logs d uid action notes w"
| "run_api d uid (Delete_logs w) = delete_logs d uid w"

section \<open>The specification's words\<close>

text \<open>
  A request is overdue when \<open>status == approved AND returned_at IS NULL AND
  now > end_time\<close>.
\<close>

definition spec_overdue :: "timestamptz \<Rightarrow> request \<Rightarrow> bool" where
  "spec_overdue now r =
     (rq_status r = Some Approved \<and> rq_returned_at r = None \<and> now > rq_end_time r)"

text \<open>
  \<open>round(100 * approved / total)\<close> on the exact quotient (\<open>whole\<close> is the total), 0 when the total is 0; a
  value halfway between two integers goes up.
\<close>

definition spec_percent :: "nat \<Rightarrow> nat \<Rightarrow> int" where
  "spec_percent approved whole =
     (if whole = 0 then 0 else round (100 * of_nat approved / of_nat whole :: rat))"

section \<open>A sample database\<close>

definition admin_id :: uuid where
  "admin_id = ''a0000000-0000-4000-8000-000000000001''"

definition siswa1_id :: uuid where
  "siswa1_id = ''b0000000-0000-4000-8000-000000000001''"

definition siswa2_id :: uuid where
  "siswa2_id = ''b0000000-0000-4000-8000-000000000002''"

definition kunci_id :: uuid where
  "kunci_id = ''c0000000-0000-4000-8000-000000000001''"

definition infokus_id :: uuid where
  "infokus_id = ''c0000000-0000-4000-8000-000000000002''"

definition request1_id :: uuid where
  "request1_id = ''d0000000-0000-4000-8000-000000000001''"

definition request2_id :: uuid where
  "request2_id = ''d0000000-0000-4000-8000-000000000002''"

definition log1_id :: uuid where
  "log1_id = ''e0000000-0000-4000-8000-000000000001''"

definition log2_id :: uuid where
  "log2_id = ''e0000000-0000-4000-8000-000000000002''"

definition sample_profiles :: "profile list" where
  "sample_profiles =
     [ \<lparr> pf_id = admin_id, pf_full_name = ''Admin Sistem'', pf_email = ''admin@sekolah.ac.id'',
         pf_nim_nip = Some ''ADM001'', pf_jurusan = None, pf_kelas = None,
         pf_angkatan = None \<rparr>,
       \<lparr> pf_id = siswa1_id, pf_full_name = ''Mahasiswa TI 1A'',
         pf_email = ''2021ti1001@student.ac.id'', pf_nim_nip = Some ''2021TI1001'',
         pf_jurusan = Some Ti, pf_kelas = Some ''TI-1'', pf_angkatan = Some 2021 \<rparr>,
       \<lparr> pf_id = siswa2_id, pf_full_name = ''Mahasiswa TRKJ 1A'',
         pf_email = ''2021trkj1001@student.ac.id'', pf_nim_nip = Some ''2021TRKJ1001'',
         pf_jurusan = Some Trkj, pf_kelas = Some ''TRKJ-1'', pf_angkatan = Some 2021 \<rparr> ]"

definition sample_roles :: "user_role list" where
  "sample_roles =
     [ \<lparr> ur_id = ''f0000000-0000-4000-8000-000000000001'', ur_user_id = admin_id,
         ur_role = Admin \<rparr>,
       \<lparr> ur_id = ''f0000000-0000-4000-8000-000000000002'', ur_user_id = siswa1_id,
         ur_role = Siswa \<rparr>,
       \<lparr> ur_id = ''f0000000-0000-4000-8000-000000000003'', ur_user_id = siswa2_id,
         ur_role = Siswa \<rparr> ]"

definition kunci :: item where
  "kunci =
     \<lparr> it_id = kunci_id, it_name = ''Kunci Lab Komputer 1'', it_type = ''kunci'',
       it_room_name = ''Lab Komputer 1'', it_status = Some Tersedia,
       it_condition_notes = None, it_created_at = Some 1736000000000,
       it_updated_at = Some 1736000000000 \<rparr>"

definition infokus :: item where
  "infokus =
     \<lparr> it_id = infokus_id, it_name = ''Infokus 01'', it_type = ''infokus'',
       it_room_name = ''Portable Unit 1'', it_status = Some Dipinjam,
       it_condition_notes = Some ''Kondisi baik'', it_created_at = Some 1736000000000,
       it_updated_at = Some 1736000000000 \<rparr>"

text \<open>
  Two pending requests: \<open>request1\<close> for the key, which is \<open>tersedia\<close>, and
  \<open>request2\<close> for the projector, which is \<open>dipinjam\<close>. The windows are 10 January
  2025, 08:00 to 10:00 and 13:00 to 15:00 in Jakarta.
\<close>

definition request1 :: request where
  "request1 =
     new_request 1736400000000 request1_id kunci_id siswa1_id ''Kuliah Pemrograman Web''
       1736470800000 1736478000000"

definition request2 :: request where
  "request2 =
     new_request 1736400060000 request2_id infokus_id siswa2_id ''Presentasi Jaringan''
       1736488800000 1736496000000"

definition log1 :: activity_log where
  "log1 =
     \<lparr> lg_id = log1_id, lg_request_id = request1_id, lg_action = ''request'',
       lg_performed_by = siswa1_id,
       lg_notes = Some ''Mengajukan peminjaman Kunci Lab Komputer 1'',
       lg_created_at = Some 1736400000000 \<rparr>"

definition sample_db :: db where
  "sample_db =
     \<lparr> profiles = sample_profiles, user_roles = sample_roles, items = [kunci, infokus],
       borrowing_requests = [request1, request2], activity_logs = [log1] \<rparr>"

text \<open>
  The text of a \<open>UUID\<close> in its usual form: 36 characters, hyphens at the four places,
  hexadecimal digits elsewhere. A text read so is its own canonical form when written
  in lower case, as the identifiers of the sample are.
\<close>

definition hex_digit :: "char \<Rightarrow> bool" where
  "hex_digit c = (c \<in> set ''0123456789abcdef'')"

definition sample_uuid_in :: "string \<Rightarrow> uuid option" where
  "sample_uuid_in t =
     (if length t = 36 \<and>
         list_all (\<lambda>i. if i \<in> {8, 13, 18, 23} then t ! i = CHR ''-'' else hex_digit (t ! i))
                  [0..<36]
      then Some t else None)"

text \<open>
  \<open>new Date(text)\<close> on the two texts of the specification's example, read in Jakarta
  (UTC+7).
\<close>

definition sample_js_date :: "string \<Rightarrow> timestamptz option" where
  "sample_js_date t =
     (if t = ''2025-01-10T08:00'' then Some 1736470800000
      else if t = ''2025-01-10T10:00'' then Some 1736478000000
      else None)"

text \<open>
  The two requests as the Requests page lists them, each joined with its item and its
  borrower.
\<close>

definition selected1 :: BorrowingRequest where
  "selected1 =
     \<lparr> br_id = request1_id, br_purpose = ''Kuliah Pemrograman Web'',
       br_requested_at = Some 1736400000000, br_start_time = 1736470800000,
       br_end_time = 1736478000000, br_status = Some Pending, br_approval_notes = None,
       br_items = \<lparr> ji_name = ''Kunci Lab Komputer 1'', ji_type = ''kunci'',
                    ji_room_name = ''Lab Komputer 1'' \<rparr>,
       br_profiles = \<lparr> jp_full_name = ''Mahasiswa TI 1A'',
                       jp_nim_nip = Some ''2021TI1001'' \<rparr> \<rparr>"

definition selected2 :: BorrowingRequest where
  "selected2 =
     \<lparr> br_id = request2_id, br_purpose = ''Presentasi Jaringan'',
       br_requested_at = Some 1736400060000, br_start_time = 1736488800000,
       br_end_time = 1736496000000, br_status = Some Pending, br_approval_notes = None,
       br_items = \<lparr> ji_name = ''Infokus 01'', ji_type = ''infokus'',
                    ji_room_name = ''Portable Unit 1'' \<rparr>,
       br_profiles = \<lparr> jp_full_name = ''Mahasiswa TRKJ 1A'',
                       jp_nim_nip = Some ''2021TRKJ1001'' \<rparr> \<rparr>"

text \<open>
  The sample after the admin has approved \<open>request2\<close>, read on 12 January 2025: the
  window of \<open>request2\<close> ended on 10 January at 15:00, the projector is not back, and
  its stored status is \<open>dipinjam\<close>.
\<close>

definition late_db :: db where
  "late_db =
     sample_db\<lparr>borrowing_requests :=
       [request1,
        request2\<lparr> rq_status := Some Approved, rq_approved_by := Some admin_id,
                  rq_approved_at := Some 1736450000000,
                  rq_updated_at := Some 1736450000500 \<rparr>]\<rparr>"

text \<open>
  A ledger of \<open>n\<close> requests (\<open>n\<close> at most 100) by the first student for the key,
  the first \<open>k\<close> of them approved and the others pending.
\<close>

definition request_no :: "nat \<Rightarrow> request_status \<Rightarrow> request" where
  "request_no i st =
     (new_request 1736400000000
        (''d0000000-0000-4000-8000-0000000000'' @
           [char_of (48 + i div 10), char_of (48 + i mod 10)])
        kunci_id siswa1_id ''Kuliah Pemrograman Web'' 1736470800000 1736478000000)
     \<lparr> rq_status := Some st \<rparr>"

definition ledger_of :: "nat \<Rightarrow> nat \<Rightarrow> db" where
  "ledger_of n k =
     sample_db\<lparr> borrowing_requests :=
                  map (\<lambda>i. request_no i (if i < k then Approved else Pending)) [0..<n],
                activity_logs := [] \<rparr>"

section \<open>Properties\<close>

subsection \<open>What the policies say\<close>

lemma requests_select_using:
  "rls_using borrowing_requests_policies Select d uid r =
     (Some (rq_borrower_id r) = uid \<or> has_role d uid Admin \<or> has_role d uid Guru)"
  by (simp add: rls_using_def borrowing_requests_policies_def pol_applies_def)

lemma requests_update_target:
  "rls_target borrowing_requests_policies Update d uid r =
     (has_role d uid Admin \<or> has_role d uid Guru)"
  by (auto simp add: rls_target_def rls_using_def borrowing_requests_policies_def
        pol_applies_def)

lemma requests_update_check:
  "rls_check borrowing_requests_policies Update d uid r =
     (has_role d uid Admin \<or> has_role d uid Guru)"
  by (simp add: rls_check_def borrowing_requests_policies_def pol_applies_def)

lemma requests_delete_target:
  "rls_target borrowing_requests_policies Delete d uid r = False"
  by (simp add: rls_target_def rls_using_def borrowing_requests_policies_def pol_applies_def)

lemma requests_insert_check:
  "rls_check borrowing_requests_policies Insert d uid r = (Some (rq_borrower_id r) = uid)"
  by (simp add: rls_check_def borrowing_requests_policies_def pol_applies_def)

lemma items_select_using: "rls_using items_policies Select d uid i = True"
  by (simp add: rls_using_def items_policies_def pol_applies_def)

lemma items_write_target:
  "c \<noteq> Select \<Longrightarrow>
   rls_target items_policies c d uid i = (has_role d uid Admin \<or> has_role d uid Guru)"
  by (cases c) (auto simp add: rls_target_def rls_using_def items_policies_def pol_applies_def)

lemma items_update_check:
  "rls_check items_policies Update d uid i = (has_role d uid Admin \<or> has_role d uid Guru)"
  by (simp add: rls_check_def items_policies_def pol_applies_def)

lemma logs_select_using: "rls_using activity_logs_policies Select d uid l = True"
  by (simp add: rls_using_def activity_logs_policies_def pol_applies_def)

lemma logs_insert_check: "rls_check activity_logs_policies Insert d uid l = True"
  by (simp add: rls_check_def activity_logs_policies_def pol_applies_def)

lemma logs_update_target: "rls_target activity_logs_policies Update d uid l = False"
  by (simp add: rls_target_def rls_using_def activity_logs_policies_def pol_applies_def)

lemma logs_delete_target: "rls_target activity_logs_policies Delete d uid l = False"
  by (simp add: rls_target_def rls_using_def activity_logs_policies_def pol_applies_def)

subsection \<open>Statements that change nothing, tables a statement leaves alone\<close>

lemma update_requests_denied:
  "\<not> has_role d uid Admin \<Longrightarrow> \<not> has_role d uid Guru \<Longrightarrow>
   update_requests d uid now p w = Inr d"
  by (simp add: update_requests_def requests_update_target)

lemma update_items_denied:
  "\<not> has_role d uid Admin \<Longrightarrow> \<not> has_role d uid Guru \<Longrightarrow>
   update_items d uid now s w = Inr d"
  by (simp add: update_items_def items_write_target)

lemma item_update_by_text_denied:
  "\<not> has_role d uid Admin \<Longrightarrow> \<not> has_role d uid Guru \<Longrightarrow>
   error_ignored d (update_item_status_by_id_text uuid_in d uid now s t) = d"
  by (simp add: update_item_status_by_id_text_def update_items_denied error_ignored_def
           split: option.split)

lemma insert_log_frame:
  "borrowing_requests (error_ignored d (insert_log d uid now i r a p n)) = borrowing_requests d"
  "items (error_ignored d (insert_log d uid now i r a p n)) = items d"
  "profiles (error_ignored d (insert_log d uid now i r a p n)) = profiles d"
  "user_roles (error_ignored d (insert_log d uid now i r a p n)) = user_roles d"
  by (simp_all add: error_ignored_def insert_log_def Let_def split: option.split)

subsection \<open>The sample's callers\<close>

lemma sample_roles_of_siswa1:
  "has_role sample_db (Some siswa1_id) Siswa"
  "\<not> has_role sample_db (Some siswa1_id) Admin"
  "\<not> has_role sample_db (Some siswa1_id) Guru"
  by (simp_all add: has_role_def sample_db_def sample_roles_def siswa1_id_def siswa2_id_def
        admin_id_def)

subsection \<open>Who may write a request\<close>

text \<open>
  C3. A caller who holds the role \<open>siswa\<close> and neither \<open>admin\<close> nor \<open>guru\<close>
  cannot update a borrowing request, whoever the borrower is: an \<open>UPDATE\<close> of the
  status and approval columns changes no row, under any \<open>WHERE\<close> clause, and
  \<open>handleApproveReject\<close> run by such a caller leaves every request and every item as
  it was. An \<open>INSERT\<close> of a request whose \<open>borrower_id\<close> is not the caller's own
  identity is refused by the policy, for every caller.
\<close>

theorem siswa_update_and_foreign_insert_denied:
  "(has_role d uid Siswa \<and> \<not> has_role d uid Admin \<and> \<not> has_role d uid Guru \<longrightarrow>
      update_requests d uid now p w = Inr d \<and>
      borrowing_requests
        (snd (handleApproveReject uuid_in d uid client_now now log_id notes sel rid status))
        = borrowing_requests d \<and>
      items (snd (handleApproveReject uuid_in d uid client_now now log_id notes sel rid status))
        = items d) \<and>
   (uid \<noteq> Some borrower_id \<longrightarrow>
      insert_request d uid now new_id item_id borrower_id purpose start_time end_time
        = Inl Insufficient_privilege)"
proof -
  have "insert_request d uid now new_id item_id borrower_id purpose start_time end_time
          = Inl Insufficient_privilege" if "uid \<noteq> Some borrower_id"
    using that by (auto simp: insert_request_def requests_insert_check new_request_def)
  moreover have "borrowing_requests
        (snd (handleApproveReject uuid_in d uid client_now now log_id notes sel rid status))
        = borrowing_requests d \<and>
      items (snd (handleApproveReject uuid_in d uid client_now now log_id notes sel rid status))
        = items d"
    if "\<not> has_role d uid Admin" "\<not> has_role d uid Guru"
    using that
    by (cases uid; cases sel)
       (simp_all add: handleApproveReject_def update_requests_denied
          item_update_by_text_denied insert_log_frame Let_def)
  ultimately show ?thesis
    by (simp add: update_requests_denied)
qed

theorem siswa_update_and_foreign_insert_denied_witness:
  "has_role sample_db (Some siswa1_id) Siswa \<and>
   \<not> has_role sample_db (Some siswa1_id) Admin \<and>
   \<not> has_role sample_db (Some siswa1_id) Guru \<and>
   rq_borrower_id request1 = siswa1_id \<and>
   update_requests sample_db (Some siswa1_id) 1736450000500
      \<lparr> set_status = Some Approved, set_approved_by = Some siswa1_id,
        set_approved_at = Some 1736450000000, set_approval_notes = Some [] \<rparr>
      (\<lambda>r. rq_id r = request1_id) = Inr sample_db \<and>
   borrowing_requests
     (snd (handleApproveReject sample_uuid_in sample_db (Some siswa1_id) 1736450000000
             1736450000500 log2_id [] None request1_id Decide_approved))
     = borrowing_requests sample_db \<and>
   Some siswa1_id \<noteq> Some siswa2_id \<and>
   insert_request sample_db (Some siswa1_id) 1736450000500
      ''d0000000-0000-4000-8000-000000000003'' kunci_id siswa2_id ''Kuliah''
      1736470800000 1736478000000 = Inl Insufficient_privilege"
proof -
  have neq: "Some siswa1_id \<noteq> Some siswa2_id"
    by (simp add: siswa1_id_def siswa2_id_def)
  have own: "rq_borrower_id request1 = siswa1_id"
    by (simp add: request1_def new_request_def)
  show ?thesis
    using siswa_update_and_foreign_insert_denied
            [of sample_db "Some siswa1_id" 1736450000500
                "\<lparr> set_status = Some Approved, set_approved_by = Some siswa1_id,
                   set_approved_at = Some 1736450000000, set_approval_notes = Some [] \<rparr>"
                "\<lambda>r. rq_id r = request1_id" sample_uuid_in 1736450000000 log2_id "[]" None
                request1_id Decide_approved siswa2_id
                "''d0000000-0000-4000-8000-000000000003''" kunci_id "''Kuliah''"
                1736470800000 1736478000000]
          sample_roles_of_siswa1 neq own
    by simp
qed

subsection \<open>handleApproveReject, run by an admin or a guru\<close>

lemma patch_keeps_id:
  "rq_id (if c then patch_request now p r else r) = rq_id r"
  by (simp add: patch_request_def)

lemma patch_keeps_ids:
  "map rq_id (map (\<lambda>r. if w r then patch_request now p r else r) rs) = map rq_id rs"
  by (induction rs) (simp_all add: patch_request_def)

lemma update_requests_permitted:
  assumes "has_role d uid Admin \<or> has_role d uid Guru"
    and "\<And>a. set_approved_by p = Some a \<Longrightarrow> a \<in> set (map pf_id (profiles d))"
  shows "update_requests d uid now p w =
           Inr (d\<lparr>borrowing_requests :=
                    map (\<lambda>r. if w r then patch_request now p r else r) (borrowing_requests d)\<rparr>)"
  using assms
  by (auto simp add: update_requests_def requests_update_target requests_update_check
        list_ex_iff split: option.splits)

lemma update_item_by_text_frame:
  "borrowing_requests (error_ignored d (update_item_status_by_id_text uuid_in d uid now s t))
     = borrowing_requests d"
  "activity_logs (error_ignored d (update_item_status_by_id_text uuid_in d uid now s t))
     = activity_logs d"
  "profiles (error_ignored d (update_item_status_by_id_text uuid_in d uid now s t))
     = profiles d"
  by (simp_all add: error_ignored_def update_item_status_by_id_text_def update_items_def Let_def
        split: option.split)

lemma insert_log_appends:
  assumes "new_id \<notin> set (map lg_id (activity_logs d))"
    and "rid \<in> set (map rq_id (borrowing_requests d))"
    and "u \<in> set (map pf_id (profiles d))"
  shows "activity_logs (error_ignored d (insert_log d uid now new_id (Some rid) action u notes)) =
           activity_logs d @
           [\<lparr> lg_id = new_id, lg_request_id = rid, lg_action = action, lg_performed_by = u,
              lg_notes = notes, lg_created_at = Some now \<rparr>]"
  using assms by (simp add: insert_log_def error_ignored_def logs_insert_check)

lemma handle_permitted:
  assumes role: "has_role d (Some u) Admin \<or> has_role d (Some u) Guru"
    and prof: "u \<in> set (map pf_id (profiles d))"
  shows "fst (handleApproveReject uuid_in d (Some u) client_now now log_id notes sel rid status)
           = Toast_success (if status = Decide_approved then ''Permintaan disetujui''
                            else ''Permintaan ditolak'')"
    and "borrowing_requests
           (snd (handleApproveReject uuid_in d (Some u) client_now now log_id notes sel rid status))
         = map (\<lambda>r. if rq_id r = rid
                     then r\<lparr> rq_status := Some (decision_status status),
                             rq_approved_by := Some u, rq_approved_at := Some client_now,
                             rq_approval_notes := Some notes, rq_updated_at := Some now \<rparr>
                     else r) (borrowing_requests d)"
proof -
  let ?p = "\<lparr> set_status = Some (decision_status status), set_approved_by = Some u,
                   set_approved_at = Some client_now,
                   set_approval_notes = Some notes \<rparr>"
  have upd: "update_requests d (Some u) now ?p (\<lambda>r. rq_id r = rid) =
     Inr (d\<lparr>borrowing_requests :=
                    map (\<lambda>r. if rq_id r = rid then patch_request now ?p r else r) (borrowing_requests d)\<rparr>)"
    using role prof by (intro update_requests_permitted) auto
  show "fst (handleApproveReject uuid_in d (Some u) client_now now log_id notes sel rid status)
           = Toast_success (if status = Decide_approved then ''Permintaan disetujui''
                            else ''Permintaan ditolak'')"
    by (simp add: handleApproveReject_def upd Let_def)
  show "borrowing_requests
           (snd (handleApproveReject uuid_in d (Some u) client_now now log_id notes sel rid status))
         = map (\<lambda>r. if rq_id r = rid
                     then r\<lparr> rq_status := Some (decision_status status),
                             rq_approved_by := Some u, rq_approved_at := Some client_now,
                             rq_approval_notes := Some notes, rq_updated_at := Some now \<rparr>
                     else r) (borrowing_requests d)"
    by (cases sel)
       (simp_all add: handleApproveReject_def upd Let_def insert_log_frame
          update_item_by_text_frame patch_request_def)
qed


lemma handle_rejected_rest:
  assumes role: "has_role d (Some u) Admin \<or> has_role d (Some u) Guru"
    and prof: "u \<in> set (map pf_id (profiles d))"
    and req: "rid \<in> set (map rq_id (borrowing_requests d))"
    and fresh: "log_id \<notin> set (map lg_id (activity_logs d))"
  shows "items (snd (handleApproveReject uuid_in d (Some u) client_now now log_id notes sel rid
                       Decide_rejected)) = items d"
    and "activity_logs (snd (handleApproveReject uuid_in d (Some u) client_now now log_id notes
                               sel rid Decide_rejected)) =
           activity_logs d @
           [\<lparr> lg_id = log_id, lg_request_id = rid, lg_action = ''reject'',
              lg_performed_by = u, lg_notes = Some notes, lg_created_at = Some now \<rparr>]"
proof -
  let ?p = "\<lparr> set_status = Some Rejected, set_approved_by = Some u,
                   set_approved_at = Some client_now,
                   set_approval_notes = Some notes \<rparr>"
  let ?d1 = "d\<lparr>borrowing_requests :=
                    map (\<lambda>r. if rq_id r = rid then patch_request now ?p r else r) (borrowing_requests d)\<rparr>"
  have upd: "update_requests d (Some u) now ?p (\<lambda>r. rq_id r = rid) = Inr ?d1"
    using role prof by (intro update_requests_permitted) auto
  have h: "snd (handleApproveReject uuid_in d (Some u) client_now now log_id notes sel rid
                       Decide_rejected) = error_ignored ?d1 (insert_log ?d1 (Some u) now log_id (Some rid) ''reject'' u (Some notes))"
    by (cases sel) (simp_all add: handleApproveReject_def upd Let_def)
  show "items (snd (handleApproveReject uuid_in d (Some u) client_now now log_id notes sel rid
                       Decide_rejected)) = items d"
    by (simp add: h insert_log_frame)
  have "activity_logs (error_ignored ?d1 (insert_log ?d1 (Some u) now log_id (Some rid) ''reject'' u (Some notes)))
     = activity_logs ?d1 @ [\<lparr> lg_id = log_id, lg_request_id = rid, lg_action = ''reject'',
              lg_performed_by = u, lg_notes = Some notes, lg_created_at = Some now \<rparr>]"
    using prof req fresh by (intro insert_log_appends) (simp_all add: patch_keeps_id)
  then show "activity_logs (snd (handleApproveReject uuid_in d (Some u) client_now now log_id notes
                               sel rid Decide_rejected)) =
           activity_logs d @
           [\<lparr> lg_id = log_id, lg_request_id = rid, lg_action = ''reject'',
              lg_performed_by = u, lg_notes = Some notes, lg_created_at = Some now \<rparr>]"
    by (simp add: h)
qed

lemma update_requests_frame:
  assumes "update_requests d uid now p w = Inr d1"
  shows "items d1 = items d" and "activity_logs d1 = activity_logs d"
    and "profiles d1 = profiles d" and "user_roles d1 = user_roles d"
  using assms by (auto simp add: update_requests_def Let_def split: if_splits)

lemma item_update_by_text_unreadable:
  "uuid_in t = None \<Longrightarrow>
   error_ignored d (update_item_status_by_id_text uuid_in d uid now s t) = d"
  by (simp add: update_item_status_by_id_text_def error_ignored_def)

lemma handle_item_untouched:
  assumes "uuid_in (ji_name (br_items sel)) = None"
  shows "items (snd (handleApproveReject uuid_in d user client_now now log_id notes (Some sel)
                       rid status)) = items d"
proof (cases user)
  case None
  then show ?thesis by (simp add: handleApproveReject_def)
next
  case (Some u)
  show ?thesis
  proof (cases "update_requests d (Some u) now
                 \<lparr> set_status = Some (decision_status status), set_approved_by = Some u,
                   set_approved_at = Some client_now,
                   set_approval_notes = Some notes \<rparr>
                 (\<lambda>r. rq_id r = rid)")
    case (Inl e)
    with Some show ?thesis by (simp add: handleApproveReject_def)
  next
    case (Inr d1)
    with Some assms show ?thesis
      by (simp add: handleApproveReject_def Let_def insert_log_frame
            item_update_by_text_unreadable update_requests_frame(1)[OF Inr])
  qed
qed

lemma sample_admin:
  "has_role sample_db (Some admin_id) Admin"
  "admin_id \<in> set (map pf_id (profiles sample_db))"
  by (simp_all add: has_role_def sample_db_def sample_roles_def sample_profiles_def admin_id_def)

text \<open>
  C1, as the code has it. When an admin or a guru who has a profile approves a request,
  the handler reports success and every row with the request's id gets the status
  \<open>approved\<close>, the caller as approver, the browser's time as \<open>approved_at\<close> and
  the notes, whatever the status of the item is: the handler does not read the item
  before it writes the request, and there is no refusal for an item that is not
  \<open>tersedia\<close>. The request and the item are written by two statements, and the
  handler does not read the outcome of the second.
\<close>

theorem approve_marks_request_whatever_the_item:
  assumes "has_role d (Some u) Admin \<or> has_role d (Some u) Guru"
    and "u \<in> set (map pf_id (profiles d))"
    and "r \<in> set (borrowing_requests d)"
    and "res = handleApproveReject uuid_in d (Some u) client_now now log_id notes sel (rq_id r)
                 Decide_approved"
  shows "fst res = Toast_success ''Permintaan disetujui'' \<and>
         borrowing_requests (snd res) =
           map (\<lambda>x. if rq_id x = rq_id r
                     then x\<lparr> rq_status := Some Approved, rq_approved_by := Some u,
                             rq_approved_at := Some client_now,
                             rq_approval_notes := Some notes, rq_updated_at := Some now \<rparr>
                     else x) (borrowing_requests d)"
  using handle_permitted [OF assms(1,2)] assms(4)
  by simp

theorem approve_marks_request_whatever_the_item_witness:
  "has_role sample_db (Some admin_id) Admin \<and>
   admin_id \<in> set (map pf_id (profiles sample_db)) \<and>
   request2 \<in> set (borrowing_requests sample_db) \<and>
   map it_status (filter (\<lambda>i. it_id i = rq_item_id request2) (items sample_db))
     = [Some Dipinjam] \<and>
   fst (handleApproveReject sample_uuid_in sample_db (Some admin_id) 1736450000000
          1736450000500 log2_id ''ok'' (Some selected2) (rq_id request2) Decide_approved)
     = Toast_success ''Permintaan disetujui'' \<and>
   map (\<lambda>x. (rq_status x, rq_approved_by x, rq_approved_at x, rq_approval_notes x))
     (borrowing_requests
        (snd (handleApproveReject sample_uuid_in sample_db (Some admin_id) 1736450000000
                1736450000500 log2_id ''ok'' (Some selected2) (rq_id request2)
                Decide_approved)))
     = [(Some Pending, None, None, None),
        (Some Approved, Some admin_id, Some 1736450000000, Some ''ok'')]"
proof -
  have mem: "request2 \<in> set (borrowing_requests sample_db)"
    by (simp add: sample_db_def)
  have it: "map it_status (filter (\<lambda>i. it_id i = rq_item_id request2) (items sample_db))
     = [Some Dipinjam]"
    by code_simp
  have ids: "rq_id request1 \<noteq> rq_id request2"
    by code_simp
  have r1: "(rq_status request1, rq_approved_by request1, rq_approved_at request1, rq_approval_notes request1) = (Some Pending, None, None, None)"
    by (simp add: request1_def new_request_def)
  show ?thesis
    using approve_marks_request_whatever_the_item
            [OF disjI1 [OF sample_admin(1)] sample_admin(2) mem refl,
             of sample_uuid_in 1736450000000 1736450000500 log2_id "''ok''" "Some selected2"]
          sample_admin mem it ids r1
    by (simp add: sample_db_def)
qed

text \<open>
  C1 as stated fails: \<open>request2\<close> is pending for the projector, which is
  \<open>dipinjam\<close>; the admin's approval succeeds and the request is approved.
\<close>

theorem approve_ignores_item_status_counterexample:
  "rq_status request2 = Some Pending \<and>
   rq_item_id request2 = it_id infokus \<and>
   it_status infokus = Some Dipinjam \<and>
   infokus \<in> set (items sample_db) \<and>
   fst (handleApproveReject sample_uuid_in sample_db (Some admin_id) 1736450000000
          1736450000500 log2_id [] (Some selected2) request2_id Decide_approved)
     = Toast_success ''Permintaan disetujui'' \<and>
   map rq_status
     (borrowing_requests
        (snd (handleApproveReject sample_uuid_in sample_db (Some admin_id) 1736450000000
                1736450000500 log2_id [] (Some selected2) request2_id Decide_approved)))
     = [Some Pending, Some Approved]"
  by code_simp

text \<open>
  C2, at an input where the code breaks it. \<open>request1\<close> is pending for the key
  \<open>Kunci Lab Komputer 1\<close>, which is \<open>tersedia\<close>. The admin approves it from the
  dialog: the request is approved, and the key is still \<open>tersedia\<close>, since the
  handler's \<open>UPDATE items\<close> compares the column \<open>id\<close> with the item's name.
\<close>

theorem approve_leaves_item_tersedia:
  "rq_item_id request1 = it_id kunci \<and>
   map rq_status (borrowing_requests sample_db) = [Some Pending, Some Pending] \<and>
   map it_status (items sample_db) = [Some Tersedia, Some Dipinjam] \<and>
   map rq_status
     (borrowing_requests
        (snd (handleApproveReject sample_uuid_in sample_db (Some admin_id) 1736450000000
                1736450000500 log2_id ''Harap kembalikan tepat waktu'' (Some selected1)
                request1_id Decide_approved)))
     = [Some Approved, Some Pending] \<and>
   map it_status
     (items
        (snd (handleApproveReject sample_uuid_in sample_db (Some admin_id) 1736450000000
                1736450000500 log2_id ''Harap kembalikan tepat waktu'' (Some selected1)
                request1_id Decide_approved)))
     = [Some Tersedia, Some Dipinjam]"
  by code_simp

text \<open>
  C7. When an admin or a guru who has a profile rejects a pending request, the handler
  reports success; every row with the request's id gets the status \<open>rejected\<close>, the
  caller as approver and the browser's time as \<open>approved_at\<close>; the table of items
  is as it was; and the activity log is the old one followed by one entry, of action
  \<open>reject\<close>, for the request, by the caller (\<open>log_id\<close> being a fresh identifier).
\<close>

theorem reject_marks_request_and_logs_once:
  assumes "has_role d (Some u) Admin \<or> has_role d (Some u) Guru"
    and "u \<in> set (map pf_id (profiles d))"
    and "r \<in> set (borrowing_requests d)"
    and "rq_status r = Some Pending"
    and "log_id \<notin> set (map lg_id (activity_logs d))"
    and "res = handleApproveReject uuid_in d (Some u) client_now now log_id notes sel (rq_id r)
                 Decide_rejected"
  shows "fst res = Toast_success ''Permintaan ditolak'' \<and>
         borrowing_requests (snd res) =
           map (\<lambda>x. if rq_id x = rq_id r
                     then x\<lparr> rq_status := Some Rejected, rq_approved_by := Some u,
                             rq_approved_at := Some client_now,
                             rq_approval_notes := Some notes, rq_updated_at := Some now \<rparr>
                     else x) (borrowing_requests d) \<and>
         items (snd res) = items d \<and>
         activity_logs (snd res) =
           activity_logs d @
           [\<lparr> lg_id = log_id, lg_request_id = rq_id r, lg_action = ''reject'',
              lg_performed_by = u, lg_notes = Some notes, lg_created_at = Some now \<rparr>]"
proof -
  have "rq_id r \<in> set (map rq_id (borrowing_requests d))"
    using assms(3) by simp
  from handle_rejected_rest [OF assms(1,2) this assms(5)]
       handle_permitted [OF assms(1,2)] assms(6)
  show ?thesis by simp
qed

theorem reject_marks_request_and_logs_once_witness:
  "has_role sample_db (Some admin_id) Admin \<and>
   admin_id \<in> set (map pf_id (profiles sample_db)) \<and>
   request1 \<in> set (borrowing_requests sample_db) \<and>
   rq_status request1 = Some Pending \<and>
   log2_id \<notin> set (map lg_id (activity_logs sample_db)) \<and>
   fst (handleApproveReject sample_uuid_in sample_db (Some admin_id) 1736450000000
          1736450000500 log2_id [] None (rq_id request1) Decide_rejected)
     = Toast_success ''Permintaan ditolak'' \<and>
   map (\<lambda>x. (rq_status x, rq_approved_by x, rq_approved_at x))
     (borrowing_requests
        (snd (handleApproveReject sample_uuid_in sample_db (Some admin_id) 1736450000000
                1736450000500 log2_id [] None (rq_id request1) Decide_rejected)))
     = [(Some Rejected, Some admin_id, Some 1736450000000), (Some Pending, None, None)] \<and>
   items (snd (handleApproveReject sample_uuid_in sample_db (Some admin_id) 1736450000000
                 1736450000500 log2_id [] None (rq_id request1) Decide_rejected))
     = [kunci, infokus] \<and>
   map lg_action
     (activity_logs
        (snd (handleApproveReject sample_uuid_in sample_db (Some admin_id) 1736450000000
                1736450000500 log2_id [] None (rq_id request1) Decide_rejected)))
     = [''request'', ''reject'']"
proof -
  have mem: "request1 \<in> set (borrowing_requests sample_db)"
    by (simp add: sample_db_def)
  have pend: "rq_status request1 = Some Pending"
    by (simp add: request1_def new_request_def)
  have fresh: "log2_id \<notin> set (map lg_id (activity_logs sample_db))"
    by (simp add: sample_db_def log1_def log1_id_def log2_id_def)
  have ids: "rq_id request2 \<noteq> rq_id request1"
    by code_simp
  have r2: "(rq_status request2, rq_approved_by request2, rq_approved_at request2) = (Some Pending, None, None)"
    by (simp add: request2_def new_request_def)
  show ?thesis
    using reject_marks_request_and_logs_once
            [OF disjI1 [OF sample_admin(1)] sample_admin(2) mem pend fresh refl,
             of sample_uuid_in 1736450000000 1736450000500 "[]" None]
          sample_admin mem pend fresh ids r2
    by (simp add: sample_db_def log1_def)
qed

subsection \<open>handleBorrowRequest\<close>

lemma insert_request_result:
  "insert_request d uid now new_id item_id borrower_id purpose s e = Inr d1 \<longleftrightarrow>
     (uid = Some borrower_id \<and> new_id \<notin> set (map rq_id (borrowing_requests d)) \<and>
      item_id \<in> set (map it_id (items d)) \<and> borrower_id \<in> set (map pf_id (profiles d)) \<and>
      d1 = d\<lparr>borrowing_requests :=
               borrowing_requests d @ [new_request now new_id item_id borrower_id purpose s e]\<rparr>)"
  by (auto simp add: insert_request_def requests_insert_check Let_def new_request_def)

lemma latest_request_fold:
  "\<exists>r. fold (\<lambda>r best. case best of
                       None \<Rightarrow> Some r
                     | Some b \<Rightarrow> if sorts_before (rq_created_at r) (rq_created_at b)
                                then Some r else Some b) rows (Some b0) = Some r \<and>
       (r = b0 \<or> r \<in> set rows)"
proof (induction rows arbitrary: b0)
  case Nil
  show ?case by simp
next
  case (Cons a rows)
  show ?case
  proof (cases "sorts_before (rq_created_at a) (rq_created_at b0)")
    case True
    with Cons [of a] show ?thesis by auto
  next
    case False
    with Cons [of b0] show ?thesis by auto
  qed
qed

lemma latest_request_some:
  "rows \<noteq> [] \<Longrightarrow> \<exists>r. latest_request rows = Some r \<and> r \<in> set rows"
  unfolding latest_request_def
  by (cases rows) (use latest_request_fold in auto)

lemma handleBorrowRequest_unchanged_cases:
  "selectedItem = None \<or> purpose = [] \<or> startTime = [] \<or> endTime = [] \<or> user = None \<or>
   js_date startTime = None \<or> js_date endTime = None \<Longrightarrow>
   snd (handleBorrowRequest js_date d user now request_id log_id selectedItem purpose startTime
          endTime) = d"
  by (auto simp add: handleBorrowRequest_def split: option.splits)

lemma handleBorrowRequest_run:
  assumes "purpose \<noteq> []" "startTime \<noteq> []" "endTime \<noteq> []"
    and "js_date startTime = Some s" "js_date endTime = Some e"
  shows "handleBorrowRequest js_date d (Some u) now request_id log_id (Some it) purpose startTime
           endTime =
         (case insert_request d (Some u) now request_id (it_id it) u purpose s e of
            Inl requestError \<Rightarrow> (Toast_error ''Gagal membuat permintaan'', d)
          | Inr d1 \<Rightarrow>
              (Toast_success ''Permintaan peminjaman berhasil dibuat'',
               error_ignored d1
                 (insert_log d1 (Some u) now log_id
                    (map_option rq_id (latest_request (select_requests d1 (Some u))))
                    ''request'' u (Some (''Mengajukan peminjaman '' @ it_name it)))))"
  using assms by (simp add: handleBorrowRequest_def)


lemma handleBorrowRequest_missing_item:
  assumes "it_id it \<notin> set (map it_id (items d))"
  shows "snd (handleBorrowRequest js_date d user now request_id log_id (Some it) purpose
                startTime endTime) = d \<and>
         fst (handleBorrowRequest js_date d user now request_id log_id (Some it) purpose
                startTime endTime) \<noteq> Toast_success ''Permintaan peminjaman berhasil dibuat''"
  using assms
  by (auto simp add: handleBorrowRequest_def insert_request_def Let_def split: option.splits)

lemma has_role_frame:
  "user_roles d' = user_roles d \<Longrightarrow> has_role d' uid r = has_role d uid r"
  by (cases uid) (simp_all add: has_role_def)

lemma select_requests_eq:
  "select_requests d uid =
     filter (\<lambda>r. Some (rq_borrower_id r) = uid \<or> has_role d uid Admin \<or> has_role d uid Guru)
       (borrowing_requests d)"
  unfolding select_requests_def
  by (rule filter_cong) (simp_all add: requests_select_using)

lemma filter_fresh_id:
  "rid \<notin> set (map rq_id rs) \<Longrightarrow> filter (\<lambda>r. P r \<and> rq_id r = rid) rs = []"
  by (induction rs) auto

lemma new_request_columns:
  "rq_id (new_request now i it b p s e) = i"
  "rq_borrower_id (new_request now i it b p s e) = b"
  "rq_start_time (new_request now i it b p s e) = s"
  "rq_end_time (new_request now i it b p s e) = e"
  "rq_status (new_request now i it b p s e) = Some Pending"
  by (simp_all add: new_request_def)

lemma select_requests_cong:
  "user_roles d' = user_roles d \<Longrightarrow> borrowing_requests d' = borrowing_requests d \<Longrightarrow>
   select_requests d' uid = select_requests d uid"
proof -
  assume roles: "user_roles d' = user_roles d" and rows: "borrowing_requests d' = borrowing_requests d"
  have "has_role d' uid r = has_role d uid r" for r
    using roles by (rule has_role_frame)
  then show ?thesis
    by (simp add: select_requests_eq rows)
qed

lemma sample_facts:
  "it_id kunci \<in> set (map it_id (items sample_db))"
  "siswa1_id \<in> set (map pf_id (profiles sample_db))"
  "''d0000000-0000-4000-8000-000000000003'' \<notin> set (map rq_id (borrowing_requests sample_db))"
  "it_id (kunci\<lparr>it_id := ''c0000000-0000-4000-8000-000000000009''\<rparr>)
     \<notin> set (map it_id (items sample_db))"
  "sample_js_date ''2025-01-10T08:00'' = Some 1736470800000"
  "sample_js_date ''2025-01-10T10:00'' = Some 1736478000000"
  by (simp_all add: sample_db_def sample_profiles_def siswa1_id_def admin_id_def
        request1_def request2_def new_request_def request1_id_def request2_id_def
        kunci_def infokus_def kunci_id_def infokus_id_def sample_js_date_def)

text \<open>
  C4, as the code has it. The handler stops with the toast \<open>Mohon lengkapi semua
  field\<close>, before any statement is sent, when no item is selected or the purpose, the
  start text or the end text is empty. When the selected item is not in the table of
  items, the insert fails on the foreign key and the database is as it was, with no
  success reported. Otherwise (both texts are dates, the caller is signed in and has a
  profile, the new identifier is fresh) the request is appended with the window as
  given: the handler and the schema never compare \<open>end_time\<close> with
  \<open>start_time\<close>.
\<close>

theorem create_checks_presence_and_reference_only:
  "(selectedItem = None \<or> purpose = [] \<or> startTime = [] \<or> endTime = [] \<longrightarrow>
      handleBorrowRequest js_date d user now request_id log_id selectedItem purpose startTime
        endTime = (Toast_error ''Mohon lengkapi semua field'', d)) \<and>
   (selectedItem = Some it \<and> it_id it \<notin> set (map it_id (items d)) \<longrightarrow>
      snd (handleBorrowRequest js_date d user now request_id log_id selectedItem purpose
             startTime endTime) = d \<and>
      fst (handleBorrowRequest js_date d user now request_id log_id selectedItem purpose
             startTime endTime) \<noteq> Toast_success ''Permintaan peminjaman berhasil dibuat'') \<and>
   (selectedItem = Some it \<and> it_id it \<in> set (map it_id (items d)) \<and> purpose \<noteq> [] \<and>
    startTime \<noteq> [] \<and> endTime \<noteq> [] \<and>
    js_date startTime = Some s \<and> js_date endTime = Some e \<and>
    user = Some u \<and> u \<in> set (map pf_id (profiles d)) \<and>
    request_id \<notin> set (map rq_id (borrowing_requests d)) \<longrightarrow>
      fst (handleBorrowRequest js_date d user now request_id log_id selectedItem purpose
             startTime endTime) = Toast_success ''Permintaan peminjaman berhasil dibuat'' \<and>
      borrowing_requests
        (snd (handleBorrowRequest js_date d user now request_id log_id selectedItem purpose
                startTime endTime)) =
        borrowing_requests d @ [new_request now request_id (it_id it) u purpose s e])"
proof (intro conjI impI)
  assume "selectedItem = None \<or> purpose = [] \<or> startTime = [] \<or> endTime = []"
  then show "handleBorrowRequest js_date d user now request_id log_id selectedItem purpose
               startTime endTime = (Toast_error ''Mohon lengkapi semua field'', d)"
    by (auto simp add: handleBorrowRequest_def split: option.splits)
next
  assume a: "selectedItem = Some it \<and> it_id it \<notin> set (map it_id (items d))"
  with handleBorrowRequest_missing_item [of it d js_date user now request_id log_id purpose
         startTime endTime]
  show "snd (handleBorrowRequest js_date d user now request_id log_id selectedItem purpose
               startTime endTime) = d"
    and "fst (handleBorrowRequest js_date d user now request_id log_id selectedItem purpose
             startTime endTime) \<noteq> Toast_success ''Permintaan peminjaman berhasil dibuat''"
    by simp_all
next
  assume a: "selectedItem = Some it \<and> it_id it \<in> set (map it_id (items d)) \<and> purpose \<noteq> [] \<and>
    startTime \<noteq> [] \<and> endTime \<noteq> [] \<and>
    js_date startTime = Some s \<and> js_date endTime = Some e \<and>
    user = Some u \<and> u \<in> set (map pf_id (profiles d)) \<and>
    request_id \<notin> set (map rq_id (borrowing_requests d))"
  let ?d1 = "d\<lparr>borrowing_requests :=
               borrowing_requests d @ [new_request now request_id (it_id it) u purpose s e]\<rparr>"
  have ins: "insert_request d (Some u) now request_id (it_id it) u purpose s e = Inr ?d1"
    using a by (simp add: insert_request_result)
  have run: "handleBorrowRequest js_date d user now request_id log_id selectedItem purpose
               startTime endTime =
             (Toast_success ''Permintaan peminjaman berhasil dibuat'',
               error_ignored ?d1
                 (insert_log ?d1 (Some u) now log_id
                    (map_option rq_id (latest_request (select_requests ?d1 (Some u))))
                    ''request'' u (Some (''Mengajukan peminjaman '' @ it_name it))))"
    using a by (simp add: handleBorrowRequest_run ins)
  show "fst (handleBorrowRequest js_date d user now request_id log_id selectedItem purpose
             startTime endTime) = Toast_success ''Permintaan peminjaman berhasil dibuat''"
    by (simp add: run)
  show "borrowing_requests
        (snd (handleBorrowRequest js_date d user now request_id log_id selectedItem purpose
                startTime endTime)) =
        borrowing_requests d @ [new_request now request_id (it_id it) u purpose s e]"
    by (simp add: run insert_log_frame)
qed

theorem create_checks_presence_and_reference_only_witness:
  "handleBorrowRequest sample_js_date sample_db (Some siswa1_id) 1736450000500
     ''d0000000-0000-4000-8000-000000000003'' log2_id (Some kunci) []
     ''2025-01-10T08:00'' ''2025-01-10T10:00''
     = (Toast_error ''Mohon lengkapi semua field'', sample_db) \<and>
   it_id (kunci\<lparr>it_id := ''c0000000-0000-4000-8000-000000000009''\<rparr>)
     \<notin> set (map it_id (items sample_db)) \<and>
   snd (handleBorrowRequest sample_js_date sample_db (Some siswa1_id) 1736450000500
          ''d0000000-0000-4000-8000-000000000003'' log2_id
          (Some (kunci\<lparr>it_id := ''c0000000-0000-4000-8000-000000000009''\<rparr>))
          ''Kuliah Basis Data'' ''2025-01-10T08:00'' ''2025-01-10T10:00'') = sample_db \<and>
   it_id kunci \<in> set (map it_id (items sample_db)) \<and>
   siswa1_id \<in> set (map pf_id (profiles sample_db)) \<and>
   ''d0000000-0000-4000-8000-000000000003'' \<notin> set (map rq_id (borrowing_requests sample_db)) \<and>
   sample_js_date ''2025-01-10T08:00'' = Some 1736470800000 \<and>
   sample_js_date ''2025-01-10T10:00'' = Some 1736478000000 \<and>
   fst (handleBorrowRequest sample_js_date sample_db (Some siswa1_id) 1736450000500
          ''d0000000-0000-4000-8000-000000000003'' log2_id (Some kunci)
          ''Kuliah Basis Data'' ''2025-01-10T08:00'' ''2025-01-10T10:00'')
     = Toast_success ''Permintaan peminjaman berhasil dibuat'' \<and>
   borrowing_requests
     (snd (handleBorrowRequest sample_js_date sample_db (Some siswa1_id) 1736450000500
             ''d0000000-0000-4000-8000-000000000003'' log2_id (Some kunci)
             ''Kuliah Basis Data'' ''2025-01-10T08:00'' ''2025-01-10T10:00''))
     = borrowing_requests sample_db @
       [new_request 1736450000500 ''d0000000-0000-4000-8000-000000000003'' (it_id kunci)
          siswa1_id ''Kuliah Basis Data'' 1736470800000 1736478000000]"
proof -
  note t = create_checks_presence_and_reference_only
             [where js_date = sample_js_date and d = sample_db and user = "Some siswa1_id"
                and now = 1736450000500
                and request_id = "''d0000000-0000-4000-8000-000000000003''"
                and log_id = log2_id
                and startTime = "''2025-01-10T08:00''" and endTime = "''2025-01-10T10:00''"]
  have a: "handleBorrowRequest sample_js_date sample_db (Some siswa1_id) 1736450000500
     ''d0000000-0000-4000-8000-000000000003'' log2_id (Some kunci) []
     ''2025-01-10T08:00'' ''2025-01-10T10:00''
     = (Toast_error ''Mohon lengkapi semua field'', sample_db)"
    using t [where selectedItem = "Some kunci" and purpose = "[]"] by simp
  have b: "snd (handleBorrowRequest sample_js_date sample_db (Some siswa1_id) 1736450000500
          ''d0000000-0000-4000-8000-000000000003'' log2_id
          (Some (kunci\<lparr>it_id := ''c0000000-0000-4000-8000-000000000009''\<rparr>))
          ''Kuliah Basis Data'' ''2025-01-10T08:00'' ''2025-01-10T10:00'') = sample_db"
    using t [where selectedItem = "Some (kunci\<lparr>it_id := ''c0000000-0000-4000-8000-000000000009''\<rparr>)"
               and it = "kunci\<lparr>it_id := ''c0000000-0000-4000-8000-000000000009''\<rparr>"
               and purpose = "''Kuliah Basis Data''"]
          sample_facts(4)
    by simp
  have c: "fst (handleBorrowRequest sample_js_date sample_db (Some siswa1_id) 1736450000500
          ''d0000000-0000-4000-8000-000000000003'' log2_id (Some kunci)
          ''Kuliah Basis Data'' ''2025-01-10T08:00'' ''2025-01-10T10:00'')
     = Toast_success ''Permintaan peminjaman berhasil dibuat'' \<and>
   borrowing_requests
     (snd (handleBorrowRequest sample_js_date sample_db (Some siswa1_id) 1736450000500
             ''d0000000-0000-4000-8000-000000000003'' log2_id (Some kunci)
             ''Kuliah Basis Data'' ''2025-01-10T08:00'' ''2025-01-10T10:00''))
     = borrowing_requests sample_db @
       [new_request 1736450000500 ''d0000000-0000-4000-8000-000000000003'' (it_id kunci)
          siswa1_id ''Kuliah Basis Data'' 1736470800000 1736478000000]"
    using t [where selectedItem = "Some kunci" and it = kunci
               and purpose = "''Kuliah Basis Data''"
               and u = siswa1_id and s = 1736470800000 and e = 1736478000000]
          sample_facts(1,2,3,5,6)
    by simp
  from a b c sample_facts show ?thesis
    by simp
qed

text \<open>
  C4 as stated fails: a window that ends at 08:00 and starts at 10:00 of the same day is
  accepted, and the row is created.
\<close>

theorem end_before_start_accepted_counterexample:
  "sample_js_date ''2025-01-10T10:00'' = Some 1736478000000 \<and>
   sample_js_date ''2025-01-10T08:00'' = Some 1736470800000 \<and>
   \<not> (1736478000000 :: int) < 1736470800000 \<and>
   fst (handleBorrowRequest sample_js_date sample_db (Some siswa1_id) 1736450000500
          ''d0000000-0000-4000-8000-000000000003'' log2_id (Some kunci) ''Kuliah Basis Data''
          ''2025-01-10T10:00'' ''2025-01-10T08:00'')
     = Toast_success ''Permintaan peminjaman berhasil dibuat'' \<and>
   map (\<lambda>r. (rq_id r, rq_start_time r, rq_end_time r))
     (borrowing_requests
        (snd (handleBorrowRequest sample_js_date sample_db (Some siswa1_id) 1736450000500
                ''d0000000-0000-4000-8000-000000000003'' log2_id (Some kunci)
                ''Kuliah Basis Data'' ''2025-01-10T10:00'' ''2025-01-10T08:00'')))
     = [(request1_id, 1736470800000, 1736478000000),
        (request2_id, 1736488800000, 1736496000000),
        (''d0000000-0000-4000-8000-000000000003'', 1736478000000, 1736470800000)]"
  by code_simp

text \<open>
  C9. When \<open>handleBorrowRequest\<close> reports success, the caller's next read of
  \<open>borrowing_requests\<close> holds exactly one row of the new identifier; its
  \<open>start_time\<close> and \<open>end_time\<close> are the instants of the two texts given, and its
  status is \<open>pending\<close>.
\<close>

theorem created_request_reads_back:
  assumes "fst (handleBorrowRequest js_date d user now request_id log_id selectedItem purpose
                  startTime endTime) = Toast_success m"
    and "d' = snd (handleBorrowRequest js_date d user now request_id log_id selectedItem purpose
                     startTime endTime)"
  shows "\<exists>s e. js_date startTime = Some s \<and> js_date endTime = Some e \<and>
           map (\<lambda>r. (rq_start_time r, rq_end_time r, rq_status r))
               (filter (\<lambda>r. rq_id r = request_id) (select_requests d' user))
             = [(s, e, Some Pending)]"
proof -
  from assms(1) obtain it u s e d1 where
    sel: "selectedItem = Some it" and u: "user = Some u"
    and s: "js_date startTime = Some s" and e: "js_date endTime = Some e"
    and full: "purpose \<noteq> []" "startTime \<noteq> []" "endTime \<noteq> []"
    and ins: "insert_request d (Some u) now request_id (it_id it) u purpose s e = Inr d1"
    by (auto simp add: handleBorrowRequest_def split: option.splits if_splits sum.splits)
  from ins have fresh: "request_id \<notin> set (map rq_id (borrowing_requests d))"
    and d1: "d1 = d\<lparr>borrowing_requests :=
               borrowing_requests d @ [new_request now request_id (it_id it) u purpose s e]\<rparr>"
    by (simp_all add: insert_request_result)
  have d': "d' = error_ignored d1
                 (insert_log d1 (Some u) now log_id
                    (map_option rq_id (latest_request (select_requests d1 (Some u))))
                    ''request'' u (Some (''Mengajukan peminjaman '' @ it_name it)))"
    using assms(2) sel u s e full ins by (simp add: handleBorrowRequest_run)
  have same: "select_requests d' (Some u) = select_requests d1 (Some u)"
    unfolding d' by (intro select_requests_cong) (simp_all add: insert_log_frame)
  have none: "filter (\<lambda>r. rq_id r = request_id) (borrowing_requests d) = []"
    using fresh by (auto simp add: filter_empty_conv)
  have "filter (\<lambda>r. rq_id r = request_id) (select_requests d1 (Some u))
          = [new_request now request_id (it_id it) u purpose s e]"
    by (simp add: select_requests_eq d1 filter_fresh_id [OF fresh] new_request_columns)
  then have "filter (\<lambda>r. rq_id r = request_id) (select_requests d' user)
          = [new_request now request_id (it_id it) u purpose s e]"
    by (simp add: u same)
  then show ?thesis
    using s e by (simp add: new_request_columns)
qed

theorem created_request_reads_back_witness:
  "fst (handleBorrowRequest sample_js_date sample_db (Some siswa2_id) 1736450000500
          ''d0000000-0000-4000-8000-000000000004'' log2_id (Some kunci)
          ''Rapat Himpunan'' ''2025-01-10T08:00'' ''2025-01-10T10:00'')
     = Toast_success ''Permintaan peminjaman berhasil dibuat'' \<and>
   sample_js_date ''2025-01-10T08:00'' = Some 1736470800000 \<and>
   sample_js_date ''2025-01-10T10:00'' = Some 1736478000000 \<and>
   map (\<lambda>r. (rq_start_time r, rq_end_time r, rq_status r))
     (filter (\<lambda>r. rq_id r = ''d0000000-0000-4000-8000-000000000004'')
        (select_requests
           (snd (handleBorrowRequest sample_js_date sample_db (Some siswa2_id) 1736450000500
                   ''d0000000-0000-4000-8000-000000000004'' log2_id (Some kunci)
                   ''Rapat Himpunan'' ''2025-01-10T08:00'' ''2025-01-10T10:00''))
           (Some siswa2_id)))
     = [(1736470800000, 1736478000000, Some Pending)]"
proof -
  have ok: "fst (handleBorrowRequest sample_js_date sample_db (Some siswa2_id) 1736450000500
          ''d0000000-0000-4000-8000-000000000004'' log2_id (Some kunci)
          ''Rapat Himpunan'' ''2025-01-10T08:00'' ''2025-01-10T10:00'')
     = Toast_success ''Permintaan peminjaman berhasil dibuat''"
    by code_simp
  show ?thesis
    using created_request_reads_back [OF ok refl] ok sample_facts(5,6)
    by simp
qed

subsection \<open>The activity log\<close>

lemma update_logs_noop: "update_logs d uid action notes w = Inr d"
  by (simp add: update_logs_def logs_update_target)

lemma delete_logs_noop: "delete_logs d uid w = Inr d"
  by (simp add: delete_logs_def logs_delete_target)

lemma delete_requests_noop: "delete_requests d uid w = Inr d"
  by (simp add: delete_requests_def requests_delete_target)

lemma insert_log_result:
  "insert_log d uid now new_id request_id action u notes = Inr d' \<Longrightarrow>
   \<exists>l. activity_logs d' = activity_logs d @ [l] \<and> lg_action l = action \<and>
       lg_performed_by l = u \<and> lg_id l = new_id"
  by (auto simp add: insert_log_def Let_def split: option.splits if_splits)

lemma insert_log_grows:
  "\<exists>zs. activity_logs (error_ignored d (insert_log d uid now new_id request_id action u notes))
          = activity_logs d @ zs \<and> length zs \<le> 1"
proof (cases "insert_log d uid now new_id request_id action u notes")
  case (Inl e)
  then show ?thesis by (simp add: error_ignored_def)
next
  case (Inr d')
  from insert_log_result [OF Inr] Inr show ?thesis
    by (auto simp add: error_ignored_def)
qed

lemma update_items_frame:
  assumes "update_items d uid now s w = Inr d1"
  shows "activity_logs d1 = activity_logs d" and "borrowing_requests d1 = borrowing_requests d"
    and "profiles d1 = profiles d" and "user_roles d1 = user_roles d"
  using assms by (auto simp add: update_items_def Let_def split: if_splits)

lemma insert_request_frame:
  assumes "insert_request d uid now new_id item_id borrower_id purpose s e = Inr d1"
  shows "activity_logs d1 = activity_logs d" and "items d1 = items d"
    and "profiles d1 = profiles d" and "user_roles d1 = user_roles d"
  using assms by (auto simp add: insert_request_def Let_def split: if_splits)

lemma run_api_keeps_logs:
  assumes "\<And>w. c \<noteq> Delete_items w" and "run_api d uid c = Inr d'"
  shows "\<exists>zs. activity_logs d' = activity_logs d @ zs \<and> length zs \<le> 1"
proof (cases c)
  case (Insert_request now new_id item_id borrower_id purpose s e)
  with assms(2) insert_request_frame(1) show ?thesis by fastforce
next
  case (Update_requests now p w)
  with assms(2) update_requests_frame(2) show ?thesis by fastforce
next
  case (Delete_requests w)
  with assms(2) show ?thesis by (simp add: delete_requests_noop)
next
  case (Update_items now s w)
  with assms(2) update_items_frame(1) show ?thesis by fastforce
next
  case (Delete_items w)
  with assms(1) [of w] show ?thesis by simp
next
  case (Insert_log now new_id request_id action performed_by nt)
  with assms(2) insert_log_result [of d uid now new_id request_id action performed_by nt d']
  show ?thesis by auto
next
  case (Update_logs action nt w)
  with assms(2) show ?thesis by (simp add: update_logs_noop)
next
  case (Delete_logs w)
  with assms(2) show ?thesis by (simp add: delete_logs_noop)
qed

lemma delete_items_denied:
  "\<not> has_role d uid Admin \<Longrightarrow> \<not> has_role d uid Guru \<Longrightarrow> delete_items d uid w = Inr d"
  by (simp add: delete_items_def items_write_target)

lemma delete_items_result:
  assumes "delete_items d uid wi = Inr d''"
  shows "items d'' =
           filter (\<lambda>i. \<not> (wi i \<and> (has_role d uid Admin \<or> has_role d uid Guru))) (items d)"
    and "borrowing_requests d'' =
           filter (\<lambda>r. rq_item_id r \<notin> it_id ` (set (items d) - set (items d'')))
                  (borrowing_requests d)"
    and "activity_logs d'' =
           filter (\<lambda>l. lg_request_id l \<notin>
                          rq_id ` (set (borrowing_requests d) - set (borrowing_requests d'')))
                  (activity_logs d)"
    and "profiles d'' = profiles d" and "user_roles d'' = user_roles d"
proof -
  let ?hit = "\<lambda>i. wi i \<and> (has_role d uid Admin \<or> has_role d uid Guru)"
  let ?gi = "map it_id (filter ?hit (items d))"
  let ?gr = "map rq_id (filter (\<lambda>r. rq_item_id r \<in> set ?gi) (borrowing_requests d))"
  from assms have d'': "d'' = d\<lparr> items := filter (\<lambda>i. \<not> ?hit i) (items d),
              borrowing_requests := filter (\<lambda>r. rq_item_id r \<notin> set ?gi) (borrowing_requests d),
              activity_logs := filter (\<lambda>l. lg_request_id l \<notin> set ?gr) (activity_logs d) \<rparr>"
    by (simp add: delete_items_def Let_def items_write_target)
  have it: "items d'' = filter (\<lambda>i. \<not> ?hit i) (items d)"
    and rq: "borrowing_requests d'' =
               filter (\<lambda>r. rq_item_id r \<notin> set ?gi) (borrowing_requests d)"
    and lg: "activity_logs d'' = filter (\<lambda>l. lg_request_id l \<notin> set ?gr) (activity_logs d)"
    by (simp_all add: d'')
  have gi: "set ?gi = it_id ` (set (items d) - set (items d''))"
    unfolding it by auto
  have gr: "set ?gr = rq_id ` (set (borrowing_requests d) - set (borrowing_requests d''))"
    unfolding rq by auto
  show "items d'' =
           filter (\<lambda>i. \<not> (wi i \<and> (has_role d uid Admin \<or> has_role d uid Guru))) (items d)"
    by (rule it)
  show "borrowing_requests d'' =
           filter (\<lambda>r. rq_item_id r \<notin> it_id ` (set (items d) - set (items d'')))
                  (borrowing_requests d)"
    using rq unfolding gi .
  show "activity_logs d'' =
           filter (\<lambda>l. lg_request_id l \<notin>
                          rq_id ` (set (borrowing_requests d) - set (borrowing_requests d'')))
                  (activity_logs d)"
    using lg unfolding gr .
  show "profiles d'' = profiles d" "user_roles d'' = user_roles d"
    by (simp_all add: d'')
qed

lemma delete_items_removed_entry:
  assumes del: "delete_items d uid wi = Inr d''"
    and l: "l \<in> set (activity_logs d) - set (activity_logs d'')"
  shows "(has_role d uid Admin \<or> has_role d uid Guru) \<and>
         (\<exists>r \<in> set (borrowing_requests d) - set (borrowing_requests d'').
            rq_id r = lg_request_id l \<and>
            (\<exists>i \<in> set (items d) - set (items d''). it_id i = rq_item_id r \<and> wi i))"
proof -
  note res = delete_items_result [OF del]
  from l have "lg_request_id l \<in>
                 rq_id ` (set (borrowing_requests d) - set (borrowing_requests d''))"
    unfolding res(3) by auto
  then obtain r where r: "r \<in> set (borrowing_requests d) - set (borrowing_requests d'')"
    and rl: "rq_id r = lg_request_id l"
    by auto
  from r have "rq_item_id r \<in> it_id ` (set (items d) - set (items d''))"
    unfolding res(2) by auto
  then obtain i where i: "i \<in> set (items d) - set (items d'')" and ir: "it_id i = rq_item_id r"
    by auto
  from i have hit: "wi i \<and> (has_role d uid Admin \<or> has_role d uid Guru)"
    unfolding res(1) by auto
  with r rl i ir show ?thesis
    by blast
qed

lemma handleBorrowRequest_logs:
  "\<exists>zs. activity_logs (snd (handleBorrowRequest js_date d user now request_id log_id selectedItem
                             purpose startTime endTime)) = activity_logs d @ zs \<and>
        length zs \<le> 1"
proof (cases "fst (handleBorrowRequest js_date d user now request_id log_id selectedItem
                     purpose startTime endTime)
              = Toast_success ''Permintaan peminjaman berhasil dibuat''")
  case False
  then have "snd (handleBorrowRequest js_date d user now request_id log_id selectedItem
                     purpose startTime endTime) = d"
    by (auto simp add: handleBorrowRequest_def split: option.splits sum.splits)
  then show ?thesis by simp
next
  case True
  then obtain it u s e d1 where
    sel: "selectedItem = Some it" and u: "user = Some u"
    and s: "js_date startTime = Some s" and e: "js_date endTime = Some e"
    and full: "purpose \<noteq> []" "startTime \<noteq> []" "endTime \<noteq> []"
    and ins: "insert_request d (Some u) now request_id (it_id it) u purpose s e = Inr d1"
    by (auto simp add: handleBorrowRequest_def split: option.splits if_splits sum.splits)
  have run: "snd (handleBorrowRequest js_date d user now request_id log_id selectedItem
                     purpose startTime endTime) =
              error_ignored d1
                 (insert_log d1 (Some u) now log_id
                    (map_option rq_id (latest_request (select_requests d1 (Some u))))
                    ''request'' u (Some (''Mengajukan peminjaman '' @ it_name it)))"
    using sel u s e full ins by (simp add: handleBorrowRequest_run)
  from insert_log_grows [of d1 "Some u" now log_id
          "map_option rq_id (latest_request (select_requests d1 (Some u)))"
          "''request''" u "Some (''Mengajukan peminjaman '' @ it_name it)"]
  show ?thesis
    by (simp add: run insert_request_frame(1) [OF ins])
qed

lemma handleApproveReject_logs:
  "\<exists>zs. activity_logs (snd (handleApproveReject uuid_in d user client_now now log_id notes sel
                             rid status)) = activity_logs d @ zs \<and>
        length zs \<le> 1"
proof (cases user)
  case None
  then show ?thesis by (simp add: handleApproveReject_def)
next
  case (Some u)
  show ?thesis
  proof (cases "update_requests d (Some u) now
                 \<lparr> set_status = Some (decision_status status), set_approved_by = Some u,
                   set_approved_at = Some client_now,
                   set_approval_notes = Some notes \<rparr>
                 (\<lambda>r. rq_id r = rid)")
    case (Inl e)
    with Some show ?thesis by (simp add: handleApproveReject_def)
  next
    case (Inr d1)
    define d2 where "d2 = (case sel of
                          None \<Rightarrow> d1
                        | Some sel \<Rightarrow>
                           if status = Decide_approved
                             then error_ignored d1
                                    (update_item_status_by_id_text uuid_in d1 (Some u) now Dipinjam
                                       (ji_name (br_items sel)))
                             else d1)"
    have logs2: "activity_logs d2 = activity_logs d"
      by (simp add: d2_def update_item_by_text_frame update_requests_frame(2) [OF Inr]
            split: option.split)
    have "snd (handleApproveReject uuid_in d user client_now now log_id notes sel rid status)
            = error_ignored d2
                (insert_log d2 (Some u) now log_id (Some rid)
                   (if status = Decide_approved then ''approve'' else ''reject'')
                   u (Some notes))"
      by (simp add: handleApproveReject_def Some Inr d2_def Let_def)
    with insert_log_grows [of d2 "Some u" now log_id "Some rid"
           "if status = Decide_approved then ''approve'' else ''reject''" u "Some notes"] logs2
    show ?thesis by simp
  qed
qed


lemma select_requests_subset:
  "set (select_requests d uid) \<subseteq> set (borrowing_requests d)"
  by (simp add: select_requests_def)

lemma handleBorrowRequest_logs_one:
  assumes ok: "fst (handleBorrowRequest js_date d user now request_id log_id selectedItem
                      purpose startTime endTime) = Toast_success m"
    and fresh: "log_id \<notin> set (map lg_id (activity_logs d))"
  shows "\<exists>l. activity_logs (snd (handleBorrowRequest js_date d user now request_id log_id
                                   selectedItem purpose startTime endTime))
               = activity_logs d @ [l] \<and>
             lg_action l = ''request'' \<and> Some (lg_performed_by l) = user"
proof -
  from ok obtain it u s e d1 where
    sel: "selectedItem = Some it" and u: "user = Some u"
    and s: "js_date startTime = Some s" and e: "js_date endTime = Some e"
    and full: "purpose \<noteq> []" "startTime \<noteq> []" "endTime \<noteq> []"
    and ins: "insert_request d (Some u) now request_id (it_id it) u purpose s e = Inr d1"
    by (auto simp add: handleBorrowRequest_def split: option.splits if_splits sum.splits)
  have run: "snd (handleBorrowRequest js_date d user now request_id log_id selectedItem
                     purpose startTime endTime) =
              error_ignored d1
                 (insert_log d1 (Some u) now log_id
                    (map_option rq_id (latest_request (select_requests d1 (Some u))))
                    ''request'' u (Some (''Mengajukan peminjaman '' @ it_name it)))"
    using sel u s e full ins by (simp add: handleBorrowRequest_run)
  from ins have prof: "u \<in> set (map pf_id (profiles d))"
    and d1: "d1 = d\<lparr>borrowing_requests :=
               borrowing_requests d @ [new_request now request_id (it_id it) u purpose s e]\<rparr>"
    by (simp_all add: insert_request_result)
  have "new_request now request_id (it_id it) u purpose s e \<in> set (select_requests d1 (Some u))"
    by (simp add: select_requests_eq d1 new_request_columns)
  then have "select_requests d1 (Some u) \<noteq> []"
    by auto
  from latest_request_some [OF this] obtain r where
    r: "latest_request (select_requests d1 (Some u)) = Some r"
    and "r \<in> set (select_requests d1 (Some u))"
    by blast
  with select_requests_subset have rid: "rq_id r \<in> set (map rq_id (borrowing_requests d1))"
    by fastforce
  define l where "l = \<lparr> lg_id = log_id, lg_request_id = rq_id r, lg_action = ''request'',
              lg_performed_by = u,
              lg_notes = Some (''Mengajukan peminjaman '' @ it_name it),
              lg_created_at = Some now \<rparr>"
  have logs1: "activity_logs d1 = activity_logs d"
    by (simp add: d1)
  have "activity_logs (error_ignored d1
          (insert_log d1 (Some u) now log_id (Some (rq_id r)) ''request'' u
             (Some (''Mengajukan peminjaman '' @ it_name it))))
        = activity_logs d1 @ [l]"
    unfolding l_def using fresh rid prof by (intro insert_log_appends) (simp_all add: d1)
  then have "activity_logs (snd (handleBorrowRequest js_date d user now request_id log_id
                                   selectedItem purpose startTime endTime))
               = activity_logs d @ [l]"
    by (simp only: run r option.map logs1)
  moreover have "lg_action l = ''request''" "Some (lg_performed_by l) = user"
    by (simp_all add: l_def u)
  ultimately show ?thesis
    by blast
qed

lemma handleApproveReject_logs_one:
  assumes role: "has_role d (Some u) Admin \<or> has_role d (Some u) Guru"
    and prof: "u \<in> set (map pf_id (profiles d))"
    and req: "rid \<in> set (map rq_id (borrowing_requests d))"
    and fresh: "log_id \<notin> set (map lg_id (activity_logs d))"
  shows "activity_logs (snd (handleApproveReject uuid_in d (Some u) client_now now log_id notes
                               sel rid status)) =
           activity_logs d @
           [\<lparr> lg_id = log_id, lg_request_id = rid,
              lg_action = (if status = Decide_approved then ''approve'' else ''reject''),
              lg_performed_by = u, lg_notes = Some notes, lg_created_at = Some now \<rparr>]"
proof -
  let ?p = "\<lparr> set_status = Some (decision_status status), set_approved_by = Some u,
             set_approved_at = Some client_now, set_approval_notes = Some notes \<rparr>"
  let ?d1 = "d\<lparr>borrowing_requests :=
                 map (\<lambda>r. if rq_id r = rid then patch_request now ?p r else r)
                     (borrowing_requests d)\<rparr>"
  have upd: "update_requests d (Some u) now ?p (\<lambda>r. rq_id r = rid) = Inr ?d1"
    using role prof by (intro update_requests_permitted) auto
  define d2 where "d2 = (case sel of
                          None \<Rightarrow> ?d1
                        | Some sel \<Rightarrow>
                           if status = Decide_approved
                             then error_ignored ?d1
                                    (update_item_status_by_id_text uuid_in ?d1 (Some u) now
                                       Dipinjam (ji_name (br_items sel)))
                             else ?d1)"
  have logs2: "activity_logs d2 = activity_logs d"
    and reqs2: "borrowing_requests d2 = borrowing_requests ?d1"
    and profs2: "profiles d2 = profiles d"
    by (simp_all add: d2_def update_item_by_text_frame split: option.split)
  have run: "snd (handleApproveReject uuid_in d (Some u) client_now now log_id notes sel rid
                    status)
            = error_ignored d2
                (insert_log d2 (Some u) now log_id (Some rid)
                   (if status = Decide_approved then ''approve'' else ''reject'')
                   u (Some notes))"
    by (simp add: handleApproveReject_def upd d2_def Let_def)
  have "activity_logs (error_ignored d2
                (insert_log d2 (Some u) now log_id (Some rid)
                   (if status = Decide_approved then ''approve'' else ''reject'')
                   u (Some notes)))
        = activity_logs d2 @
           [\<lparr> lg_id = log_id, lg_request_id = rid,
              lg_action = (if status = Decide_approved then ''approve'' else ''reject''),
              lg_performed_by = u, lg_notes = Some notes, lg_created_at = Some now \<rparr>]"
    using prof req fresh
    by (intro insert_log_appends) (simp_all add: logs2 reqs2 profs2 patch_keeps_id)
  then show ?thesis
    by (simp add: run logs2)
qed

text \<open>
  C8, as the code has it. No caller's \<open>UPDATE\<close> or \<open>DELETE\<close> on
  \<open>activity_logs\<close> changes a row, there being no policy for either. Every statement
  of the data API other than a \<open>DELETE\<close> on \<open>items\<close> leaves the entries that
  exist in place and unchanged, with at most one more after them, and so do the portal's
  two handlers. A successful \<open>handleBorrowRequest\<close> appends exactly one entry of
  action \<open>request\<close>, and \<open>handleApproveReject\<close> run by an admin or a guru on a
  request that exists appends exactly one of action \<open>approve\<close> or \<open>reject\<close>
  (\<open>log_id\<close> being a fresh identifier). A \<open>DELETE\<close> on \<open>items\<close> by a
  caller who is neither admin nor guru changes nothing. One by an admin or a guru removes
  the items its \<open>WHERE\<close> clause selects, the requests of these items and the entries
  of these requests, and nothing else: it changes no entry, the entries it leaves are in
  their order, and an entry is removed only when the caller is an admin or a guru, the
  entry's request is removed with it, and the item of that request is one the statement
  selected and removed (\<open>ON DELETE CASCADE\<close>, twice).
\<close>

theorem log_entries_appended_or_cascaded:
  "update_logs d uid action nt wl = Inr d \<and>
   delete_logs d uid wl = Inr d \<and>
   ((\<forall>w. c \<noteq> Delete_items w) \<and> run_api d uid c = Inr d' \<longrightarrow>
      (\<exists>zs. activity_logs d' = activity_logs d @ zs \<and> length zs \<le> 1)) \<and>
   (\<not> (has_role d uid Admin \<or> has_role d uid Guru) \<longrightarrow> delete_items d uid wi = Inr d) \<and>
   (delete_items d uid wi = Inr d'' \<longrightarrow>
      items d'' =
        filter (\<lambda>i. \<not> (wi i \<and> (has_role d uid Admin \<or> has_role d uid Guru))) (items d) \<and>
      borrowing_requests d'' =
        filter (\<lambda>r. rq_item_id r \<notin> it_id ` (set (items d) - set (items d'')))
               (borrowing_requests d) \<and>
      activity_logs d'' =
        filter (\<lambda>l. lg_request_id l \<notin>
                       rq_id ` (set (borrowing_requests d) - set (borrowing_requests d'')))
               (activity_logs d) \<and>
      (\<forall>l \<in> set (activity_logs d) - set (activity_logs d'').
         (has_role d uid Admin \<or> has_role d uid Guru) \<and>
         (\<exists>r \<in> set (borrowing_requests d) - set (borrowing_requests d'').
            rq_id r = lg_request_id l \<and>
            (\<exists>i \<in> set (items d) - set (items d''). it_id i = rq_item_id r \<and> wi i)))) \<and>
   (\<exists>zs. activity_logs
           (snd (handleBorrowRequest js_date d user now request_id log_id selectedItem purpose
                   startTime endTime)) = activity_logs d @ zs \<and> length zs \<le> 1) \<and>
   (\<exists>zs. activity_logs
           (snd (handleApproveReject uuid_in d user client_now now log_id approvalNotes sel rid status))
           = activity_logs d @ zs \<and> length zs \<le> 1) \<and>
   (fst (handleBorrowRequest js_date d user now request_id log_id selectedItem purpose
           startTime endTime) = Toast_success m \<and>
    log_id \<notin> set (map lg_id (activity_logs d)) \<longrightarrow>
      (\<exists>l. activity_logs
              (snd (handleBorrowRequest js_date d user now request_id log_id selectedItem
                      purpose startTime endTime)) = activity_logs d @ [l] \<and>
           lg_action l = ''request'' \<and> Some (lg_performed_by l) = user)) \<and>
   ((has_role d user Admin \<or> has_role d user Guru) \<and> user = Some u \<and>
    u \<in> set (map pf_id (profiles d)) \<and> rid \<in> set (map rq_id (borrowing_requests d)) \<and>
    log_id \<notin> set (map lg_id (activity_logs d)) \<longrightarrow>
      (\<exists>l. activity_logs
              (snd (handleApproveReject uuid_in d user client_now now log_id approvalNotes sel rid
                      status)) = activity_logs d @ [l] \<and>
           lg_action l = (if status = Decide_approved then ''approve'' else ''reject'') \<and>
           lg_request_id l = rid \<and> lg_performed_by l = u))"
proof (intro conjI impI ballI)
  show "update_logs d uid action nt wl = Inr d"
    by (rule update_logs_noop)
  show "delete_logs d uid wl = Inr d"
    by (rule delete_logs_noop)
  show "\<exists>zs. activity_logs d' = activity_logs d @ zs \<and> length zs \<le> 1"
    if "(\<forall>w. c \<noteq> Delete_items w) \<and> run_api d uid c = Inr d'"
    using that by (intro run_api_keeps_logs [of c d uid d']) simp_all
  show "delete_items d uid wi = Inr d"
    if "\<not> (has_role d uid Admin \<or> has_role d uid Guru)"
    using that by (intro delete_items_denied) simp_all
  show "items d'' =
        filter (\<lambda>i. \<not> (wi i \<and> (has_role d uid Admin \<or> has_role d uid Guru))) (items d)"
    if "delete_items d uid wi = Inr d''"
    using that by (rule delete_items_result(1))
  show "borrowing_requests d'' =
        filter (\<lambda>r. rq_item_id r \<notin> it_id ` (set (items d) - set (items d'')))
               (borrowing_requests d)"
    if "delete_items d uid wi = Inr d''"
    using that by (rule delete_items_result(2))
  show "activity_logs d'' =
        filter (\<lambda>l. lg_request_id l \<notin>
                       rq_id ` (set (borrowing_requests d) - set (borrowing_requests d'')))
               (activity_logs d)"
    if "delete_items d uid wi = Inr d''"
    using that by (rule delete_items_result(3))
  show "has_role d uid Admin \<or> has_role d uid Guru"
    if "delete_items d uid wi = Inr d''"
      and "l \<in> set (activity_logs d) - set (activity_logs d'')" for l
    using delete_items_removed_entry [OF that] by (rule conjunct1)
  show "\<exists>r \<in> set (borrowing_requests d) - set (borrowing_requests d'').
            rq_id r = lg_request_id l \<and>
            (\<exists>i \<in> set (items d) - set (items d''). it_id i = rq_item_id r \<and> wi i)"
    if "delete_items d uid wi = Inr d''"
      and "l \<in> set (activity_logs d) - set (activity_logs d'')" for l
    using delete_items_removed_entry [OF that] by (rule conjunct2)
  show "\<exists>zs. activity_logs
           (snd (handleBorrowRequest js_date d user now request_id log_id selectedItem purpose
                   startTime endTime)) = activity_logs d @ zs \<and> length zs \<le> 1"
    by (rule handleBorrowRequest_logs)
  show "\<exists>zs. activity_logs
           (snd (handleApproveReject uuid_in d user client_now now log_id approvalNotes sel rid status))
           = activity_logs d @ zs \<and> length zs \<le> 1"
    by (rule handleApproveReject_logs)
  show "\<exists>l. activity_logs
              (snd (handleBorrowRequest js_date d user now request_id log_id selectedItem
                      purpose startTime endTime)) = activity_logs d @ [l] \<and>
           lg_action l = ''request'' \<and> Some (lg_performed_by l) = user"
    if "fst (handleBorrowRequest js_date d user now request_id log_id selectedItem purpose
           startTime endTime) = Toast_success m \<and>
        log_id \<notin> set (map lg_id (activity_logs d))"
    using that by (intro handleBorrowRequest_logs_one [of _ _ _ _ _ _ _ _ _ _ m]) simp_all
  show "\<exists>l. activity_logs
              (snd (handleApproveReject uuid_in d user client_now now log_id approvalNotes sel rid
                      status)) = activity_logs d @ [l] \<and>
           lg_action l = (if status = Decide_approved then ''approve'' else ''reject'') \<and>
           lg_request_id l = rid \<and> lg_performed_by l = u"
    if h: "(has_role d user Admin \<or> has_role d user Guru) \<and> user = Some u \<and>
        u \<in> set (map pf_id (profiles d)) \<and> rid \<in> set (map rq_id (borrowing_requests d)) \<and>
        log_id \<notin> set (map lg_id (activity_logs d))"
  proof -
    from h have role: "has_role d (Some u) Admin \<or> has_role d (Some u) Guru"
      and u: "user = Some u"
      and rest: "u \<in> set (map pf_id (profiles d))"
        "rid \<in> set (map rq_id (borrowing_requests d))"
        "log_id \<notin> set (map lg_id (activity_logs d))"
      by auto
    show ?thesis
      unfolding u handleApproveReject_logs_one [OF role rest]
      by simp
  qed
qed

theorem log_entries_appended_or_cascaded_witness:
  "run_api sample_db (Some siswa1_id) (Update_logs ''approve'' None (\<lambda>l. True)) = Inr sample_db \<and>
   delete_logs sample_db (Some admin_id) (\<lambda>l. True) = Inr sample_db \<and>
   \<not> (has_role sample_db (Some siswa1_id) Admin \<or> has_role sample_db (Some siswa1_id) Guru) \<and>
   delete_items sample_db (Some siswa1_id) (\<lambda>i. True) = Inr sample_db \<and>
   delete_items sample_db (Some admin_id) (\<lambda>i. it_id i = kunci_id)
     = Inr (sample_db\<lparr> items := [infokus], borrowing_requests := [request2],
                       activity_logs := [] \<rparr>) \<and>
   log1 \<in> set (activity_logs sample_db) \<and>
   (\<exists>r \<in> set (borrowing_requests sample_db) - {request2}.
      rq_id r = lg_request_id log1 \<and>
      (\<exists>i \<in> set (items sample_db) - {infokus}. it_id i = rq_item_id r \<and> it_id i = kunci_id)) \<and>
   delete_items sample_db (Some admin_id) (\<lambda>i. it_id i = infokus_id)
     = Inr (sample_db\<lparr> items := [kunci], borrowing_requests := [request1] \<rparr>) \<and>
   activity_logs sample_db = [log1] \<and>
   log2_id \<notin> set (map lg_id (activity_logs sample_db)) \<and>
   fst (handleBorrowRequest sample_js_date sample_db (Some siswa2_id) 1736450000500
          ''d0000000-0000-4000-8000-000000000004'' log2_id (Some kunci)
          ''Rapat Himpunan'' ''2025-01-10T08:00'' ''2025-01-10T10:00'')
     = Toast_success ''Permintaan peminjaman berhasil dibuat'' \<and>
   map lg_action
     (activity_logs
        (snd (handleBorrowRequest sample_js_date sample_db (Some siswa2_id) 1736450000500
                ''d0000000-0000-4000-8000-000000000004'' log2_id (Some kunci)
                ''Rapat Himpunan'' ''2025-01-10T08:00'' ''2025-01-10T10:00'')))
     = [''request'', ''request''] \<and>
   has_role sample_db (Some admin_id) Admin \<and>
   admin_id \<in> set (map pf_id (profiles sample_db)) \<and>
   request1_id \<in> set (map rq_id (borrowing_requests sample_db)) \<and>
   map lg_action
     (activity_logs
        (snd (handleApproveReject sample_uuid_in sample_db (Some admin_id) 1736450000000
                1736450000500 log2_id ''ok'' (Some selected1) request1_id Decide_approved)))
     = [''request'', ''approve'']"
proof -
  have logs: "activity_logs sample_db = [log1]"
    by (simp add: sample_db_def)
  have act: "lg_action log1 = ''request''"
    by (simp add: log1_def)
  have fresh: "log2_id \<notin> set (map lg_id (activity_logs sample_db))"
    by (simp add: sample_db_def log1_def log1_id_def log2_id_def)
  have req: "request1_id \<in> set (map rq_id (borrowing_requests sample_db))"
    by (simp add: sample_db_def request1_def new_request_def)
  have ok: "fst (handleBorrowRequest sample_js_date sample_db (Some siswa2_id) 1736450000500
          ''d0000000-0000-4000-8000-000000000004'' log2_id (Some kunci)
          ''Rapat Himpunan'' ''2025-01-10T08:00'' ''2025-01-10T10:00'')
     = Toast_success ''Permintaan peminjaman berhasil dibuat''"
    by code_simp
  have not_staff: "\<not> (has_role sample_db (Some siswa1_id) Admin \<or>
                        has_role sample_db (Some siswa1_id) Guru)"
    by (simp add: sample_roles_of_siswa1)
  have del_kunci: "delete_items sample_db (Some admin_id) (\<lambda>i. it_id i = kunci_id)
     = Inr (sample_db\<lparr> items := [infokus], borrowing_requests := [request2],
                       activity_logs := [] \<rparr>)"
    by code_simp
  have del_infokus: "delete_items sample_db (Some admin_id) (\<lambda>i. it_id i = infokus_id)
     = Inr (sample_db\<lparr> items := [kunci], borrowing_requests := [request1] \<rparr>)"
    by code_simp
  note t1 = log_entries_appended_or_cascaded
              [where d = sample_db and uid = "Some siswa1_id" and action = "''approve''"
                 and nt = None and wl = "\<lambda>l. True" and wi = "\<lambda>i. True"
                 and js_date = sample_js_date and user = "Some siswa2_id"
                 and now = 1736450000500
                 and request_id = "''d0000000-0000-4000-8000-000000000004''"
                 and log_id = log2_id and selectedItem = "Some kunci"
                 and purpose = "''Rapat Himpunan''" and startTime = "''2025-01-10T08:00''"
                 and endTime = "''2025-01-10T10:00''"
                 and m = "''Permintaan peminjaman berhasil dibuat''"]
  note t2 = log_entries_appended_or_cascaded
              [where d = sample_db and uid = "Some admin_id" and wl = "\<lambda>l. True"
                 and wi = "\<lambda>i. it_id i = kunci_id"
                 and d'' = "sample_db\<lparr> items := [infokus], borrowing_requests := [request2],
                                        activity_logs := [] \<rparr>"
                 and user = "Some admin_id" and u = admin_id and uuid_in = sample_uuid_in
                 and client_now = 1736450000000 and now = 1736450000500 and log_id = log2_id
                 and approvalNotes = "''ok''" and sel = "Some selected1" and rid = request1_id
                 and status = Decide_approved]
  from t1 have a: "run_api sample_db (Some siswa1_id) (Update_logs ''approve'' None (\<lambda>l. True))
                     = Inr sample_db"
    by simp
  from t2 have b: "delete_logs sample_db (Some admin_id) (\<lambda>l. True) = Inr sample_db"
    by simp
  from t1 not_staff have del: "delete_items sample_db (Some siswa1_id) (\<lambda>i. True) = Inr sample_db"
    by blast
  have gone: "log1 \<in> set (activity_logs sample_db)
                - set (activity_logs (sample_db\<lparr> items := [infokus],
                        borrowing_requests := [request2], activity_logs := [] \<rparr>))"
    by (simp add: logs)
  from t2 del_kunci
  have "\<forall>l \<in> set (activity_logs sample_db)
                - set (activity_logs (sample_db\<lparr> items := [infokus],
                        borrowing_requests := [request2], activity_logs := [] \<rparr>)).
         (has_role sample_db (Some admin_id) Admin \<or> has_role sample_db (Some admin_id) Guru) \<and>
         (\<exists>r \<in> set (borrowing_requests sample_db)
                 - set (borrowing_requests (sample_db\<lparr> items := [infokus],
                        borrowing_requests := [request2], activity_logs := [] \<rparr>)).
            rq_id r = lg_request_id l \<and>
            (\<exists>i \<in> set (items sample_db)
                    - set (items (sample_db\<lparr> items := [infokus],
                        borrowing_requests := [request2], activity_logs := [] \<rparr>)).
                it_id i = rq_item_id r \<and> it_id i = kunci_id))"
    by blast
  then have "(has_role sample_db (Some admin_id) Admin \<or> has_role sample_db (Some admin_id) Guru) \<and>
         (\<exists>r \<in> set (borrowing_requests sample_db)
                 - set (borrowing_requests (sample_db\<lparr> items := [infokus],
                        borrowing_requests := [request2], activity_logs := [] \<rparr>)).
            rq_id r = lg_request_id log1 \<and>
            (\<exists>i \<in> set (items sample_db)
                    - set (items (sample_db\<lparr> items := [infokus],
                        borrowing_requests := [request2], activity_logs := [] \<rparr>)).
                it_id i = rq_item_id r \<and> it_id i = kunci_id))"
    using gone by (rule bspec)
  then have casc: "\<exists>r \<in> set (borrowing_requests sample_db) - {request2}.
      rq_id r = lg_request_id log1 \<and>
      (\<exists>i \<in> set (items sample_db) - {infokus}. it_id i = rq_item_id r \<and> it_id i = kunci_id)"
    by simp
  from t1 ok fresh have "\<exists>l. activity_logs
        (snd (handleBorrowRequest sample_js_date sample_db (Some siswa2_id) 1736450000500
                ''d0000000-0000-4000-8000-000000000004'' log2_id (Some kunci)
                ''Rapat Himpunan'' ''2025-01-10T08:00'' ''2025-01-10T10:00''))
          = activity_logs sample_db @ [l] \<and> lg_action l = ''request''"
    by blast
  then have c: "map lg_action
     (activity_logs
        (snd (handleBorrowRequest sample_js_date sample_db (Some siswa2_id) 1736450000500
                ''d0000000-0000-4000-8000-000000000004'' log2_id (Some kunci)
                ''Rapat Himpunan'' ''2025-01-10T08:00'' ''2025-01-10T10:00'')))
     = [''request'', ''request'']"
    using logs act by auto
  from t2 sample_admin req fresh have "\<exists>l. activity_logs
        (snd (handleApproveReject sample_uuid_in sample_db (Some admin_id) 1736450000000
                1736450000500 log2_id ''ok'' (Some selected1) request1_id Decide_approved))
          = activity_logs sample_db @ [l] \<and> lg_action l = ''approve''"
    by simp blast
  then have e: "map lg_action
     (activity_logs
        (snd (handleApproveReject sample_uuid_in sample_db (Some admin_id) 1736450000000
                1736450000500 log2_id ''ok'' (Some selected1) request1_id Decide_approved)))
     = [''request'', ''approve'']"
    using logs act by auto
  have in_log: "log1 \<in> set (activity_logs sample_db)"
    by (simp add: logs)
  show ?thesis
    apply (intro conjI)
    apply (rule a)
    apply (rule b)
    apply (rule not_staff)
    apply (rule del)
    apply (rule del_kunci)
    apply (rule in_log)
    apply (rule casc)
    apply (rule del_infokus)
    apply (rule logs)
    apply (rule fresh)
    apply (rule ok)
    apply (rule c)
    using sample_admin apply simp
    using sample_admin apply simp
    apply (rule req)
    apply (rule e)
    done
qed

text \<open>
  C8 as stated fails: the admin deletes the key, which the policy \<open>Admin and guru can
  manage items\<close> allows; the key's request goes with it, and the log entry of that
  request with the request.
\<close>

theorem item_delete_cascades_to_logs_counterexample:
  "has_role sample_db (Some admin_id) Admin \<and>
   activity_logs sample_db = [log1] \<and>
   lg_request_id log1 = rq_id request1 \<and>
   rq_item_id request1 = kunci_id \<and>
   (case run_api sample_db (Some admin_id) (Delete_items (\<lambda>i. it_id i = kunci_id)) of
      Inl e \<Rightarrow> None
    | Inr d' \<Rightarrow> Some (map it_id (items d'), map rq_id (borrowing_requests d'), activity_logs d'))
     = Some ([infokus_id], [request2_id], [])"
  by code_simp

subsection \<open>The overdue counts\<close>

lemma select_requests_staff:
  "has_role d uid Admin \<or> has_role d uid Guru \<Longrightarrow> select_requests d uid = borrowing_requests d"
  by (auto simp add: select_requests_eq)

lemma select_items_all: "select_items d uid = items d"
  by (simp add: select_items_def items_select_using)

text \<open>
  C5, as the code has it. The overdue count of the reports page is the number of requests
  the caller may read that are overdue in the specification's sense at the time of the
  read; for an admin or a guru these are all the requests of the ledger. The overdue
  count of the dashboard is the number of items whose stored status is \<open>overdue\<close>.
\<close>

theorem overdue_live_on_reports_stored_on_dashboard:
  "bs_overdueItems (report_stats d uid now)
     = length (filter (spec_overdue now) (select_requests d uid)) \<and>
   (has_role d uid Admin \<or> has_role d uid Guru \<longrightarrow>
      bs_overdueItems (report_stats d uid now)
        = length (filter (spec_overdue now) (borrowing_requests d))) \<and>
   st_overdueItems (fetchStats d uid profile_id)
     = length (filter (\<lambda>i. it_status i = Some Overdue) (items d))"
proof -
  have "spec_overdue now = (\<lambda>r. rq_status r = Some Approved \<and> rq_returned_at r = None \<and>
                              rq_end_time r < now)"
    by (auto simp add: spec_overdue_def fun_eq_iff)
  then have "bs_overdueItems (report_stats d uid now)
     = length (filter (spec_overdue now) (select_requests d uid))"
    by (simp add: report_stats_def Let_def)
  then show ?thesis
    by (simp add: select_requests_staff fetchStats_def Let_def select_items_all)
qed

theorem overdue_live_on_reports_stored_on_dashboard_witness:
  "has_role late_db (Some admin_id) Admin \<and>
   bs_overdueItems (report_stats late_db (Some admin_id) 1736640000000) = 1 \<and>
   length (filter (spec_overdue 1736640000000) (borrowing_requests late_db)) = 1 \<and>
   st_overdueItems (fetchStats late_db (Some admin_id) (Some admin_id)) = 0 \<and>
   length (filter (\<lambda>i. it_status i = Some Overdue) (items late_db)) = 0"
proof -
  have role: "has_role late_db (Some admin_id) Admin"
    by (simp add: has_role_def late_db_def sample_db_def sample_roles_def admin_id_def)
  have n: "length (filter (spec_overdue 1736640000000) (borrowing_requests late_db)) = 1"
    by (simp add: late_db_def spec_overdue_def request1_def request2_def new_request_def)
  have i: "length (filter (\<lambda>i. it_status i = Some Overdue) (items late_db)) = 0"
    by (simp add: late_db_def sample_db_def kunci_def infokus_def)
  from overdue_live_on_reports_stored_on_dashboard
         [of late_db "Some admin_id" 1736640000000 "Some admin_id"] role n i
  show ?thesis by simp
qed

text \<open>
  C5 as stated fails: with one request overdue and its item stored as \<open>dipinjam\<close>,
  the reports page counts 1 and the dashboard counts 0.
\<close>

theorem dashboard_overdue_is_stored_status_counterexample:
  "length (filter (spec_overdue 1736640000000) (select_requests late_db (Some admin_id))) = 1 \<and>
   bs_overdueItems (report_stats late_db (Some admin_id) 1736640000000) = 1 \<and>
   st_overdueItems (fetchStats late_db (Some admin_id) (Some admin_id)) = 0"
  by code_simp

subsection \<open>The department map\<close>

lemma map_set_keys:
  "map fst (map_set m k v) = (if k \<in> set (map fst m) then map fst m else map fst m @ [k])"
  by (induction m) (auto simp add: map_set_def)

lemma map_of_replace:
  "map_of (map (\<lambda>kv. if fst kv = k then (k, v) else kv) m) x =
     (if x = k then map_option (\<lambda>old. v) (map_of m k) else map_of m x)"
  by (induction m) auto

lemma map_set_lookup: "map_of (map_set m k v) = (map_of m)(k \<mapsto> v)"
proof (cases "k \<in> set (map fst m)")
  case True
  then obtain old where "map_of m k = Some old"
    by (cases "map_of m k") (simp_all add: map_of_eq_None_iff)
  with True show ?thesis
    by (simp add: map_set_def fun_eq_iff map_of_replace)
next
  case False
  then have "map_of m k = None"
    by (simp add: map_of_eq_None_iff)
  with False show ?thesis
    by (auto simp add: map_set_def fun_eq_iff map_add_def split: option.split)
qed

lemma map_set_distinct:
  "distinct (map fst m) \<Longrightarrow> distinct (map fst (map_set m k v))"
  by (simp add: map_set_keys)

lemma dept_count_step:
  assumes "distinct (map fst m)"
    and "\<And>k s. map_of m k = Some s \<Longrightarrow>
           ds_jurusan s = k \<and>
           ds_totalRequests s = length (filter (\<lambda>r. fst r = k) pre) \<and>
           ds_approvedRequests s = length (filter (\<lambda>r. fst r = k \<and> snd r = Some Approved) pre)"
    and "set (map fst m) = fst ` set pre"
  shows "distinct (map fst (dept_count r m))"
    and "\<And>k s. map_of (dept_count r m) k = Some s \<Longrightarrow>
           ds_jurusan s = k \<and>
           ds_totalRequests s = length (filter (\<lambda>r. fst r = k) (pre @ [r])) \<and>
           ds_approvedRequests s =
             length (filter (\<lambda>r. fst r = k \<and> snd r = Some Approved) (pre @ [r]))"
    and "set (map fst (dept_count r m)) = fst ` set (pre @ [r])"
proof -
  show "distinct (map fst (dept_count r m))"
    using assms(1) by (simp add: dept_count_def Let_def map_set_distinct)
  show "set (map fst (dept_count r m)) = fst ` set (pre @ [r])"
    using assms(3) by (auto simp add: dept_count_def Let_def map_set_keys)
  fix k s
  assume look: "map_of (dept_count r m) k = Some s"
  show "ds_jurusan s = k \<and>
           ds_totalRequests s = length (filter (\<lambda>r. fst r = k) (pre @ [r])) \<and>
           ds_approvedRequests s =
             length (filter (\<lambda>r. fst r = k \<and> snd r = Some Approved) (pre @ [r]))"
  proof (cases "k = fst r")
    case False
    with look have "map_of m k = Some s"
      by (simp add: dept_count_def Let_def map_set_lookup)
    from assms(2) [OF this] False show ?thesis by auto
  next
    case True
    show ?thesis
    proof (cases "map_of m (fst r)")
      case None
      then have "fst r \<notin> fst ` set pre"
        using assms(3) by (simp add: map_of_eq_None_iff)
      then have "\<forall>x \<in> set pre. fst x \<noteq> fst r"
        by (metis image_eqI)
      then have "filter (\<lambda>x. fst x = fst r) pre = []"
        "filter (\<lambda>x. fst x = fst r \<and> snd x = Some Approved) pre = []"
        by (simp_all add: filter_empty_conv)
      with look True None show ?thesis
        by (auto simp add: dept_count_def Let_def map_set_lookup)
    next
      case (Some s0)
      from assms(2) [OF Some] look True Some show ?thesis
        by (auto simp add: dept_count_def Let_def map_set_lookup)
    qed
  qed
qed

lemma dept_fold:
  assumes "distinct (map fst m)"
    and "\<And>k s. map_of m k = Some s \<Longrightarrow>
           ds_jurusan s = k \<and>
           ds_totalRequests s = length (filter (\<lambda>r. fst r = k) pre) \<and>
           ds_approvedRequests s = length (filter (\<lambda>r. fst r = k \<and> snd r = Some Approved) pre)"
    and "set (map fst m) = fst ` set pre"
  shows "distinct (map fst (fold dept_count recs m)) \<and>
         (\<forall>k s. map_of (fold dept_count recs m) k = Some s \<longrightarrow>
           ds_jurusan s = k \<and>
           ds_totalRequests s = length (filter (\<lambda>r. fst r = k) (pre @ recs)) \<and>
           ds_approvedRequests s =
             length (filter (\<lambda>r. fst r = k \<and> snd r = Some Approved) (pre @ recs))) \<and>
         set (map fst (fold dept_count recs m)) = fst ` set (pre @ recs)"
  using assms
proof (induction recs arbitrary: m pre)
  case Nil
  then show ?case by simp
next
  case (Cons r recs)
  from Cons.IH [of "dept_count r m" "pre @ [r]",
         OF dept_count_step(1) [OF Cons.prems] dept_count_step(2) [OF Cons.prems]
            dept_count_step(3) [OF Cons.prems]]
  show ?case by simp
qed

lemma dept_map:
  "distinct (map fst (fold dept_count recs [])) \<and>
   (\<forall>k s. map_of (fold dept_count recs []) k = Some s \<longrightarrow>
      ds_jurusan s = k \<and>
      ds_totalRequests s = length (filter (\<lambda>r. fst r = k) recs) \<and>
      ds_approvedRequests s = length (filter (\<lambda>r. fst r = k \<and> snd r = Some Approved) recs)) \<and>
   set (map fst (fold dept_count recs [])) = fst ` set recs"
  using dept_fold [of "[]" "[]" recs] by simp

lemma department_row:
  assumes "s \<in> set (departmentStats d uid)"
  shows "ds_jurusan s \<in> record_jurusan d ` set (select_requests d uid)"
    and "ds_totalRequests s =
           length (filter (\<lambda>r. record_jurusan d r = ds_jurusan s) (select_requests d uid))"
    and "ds_approvedRequests s =
           length (filter (\<lambda>r. record_jurusan d r = ds_jurusan s \<and> rq_status r = Some Approved)
                     (select_requests d uid))"
proof -
  let ?recs = "deptStatsData d uid"
  let ?m = "fold dept_count ?recs []"
  from assms obtain k where mem: "(k, s) \<in> set ?m"
    by (auto simp add: departmentStats_def)
  with dept_map [of ?recs] have look: "map_of ?m k = Some s"
    by simp
  with dept_map [of ?recs] have row: "ds_jurusan s = k"
    "ds_totalRequests s = length (filter (\<lambda>r. fst r = k) ?recs)"
    "ds_approvedRequests s = length (filter (\<lambda>r. fst r = k \<and> snd r = Some Approved) ?recs)"
    by blast+
  from mem have "k \<in> set (map fst ?m)"
    by force
  with dept_map [of ?recs] have "k \<in> fst ` set ?recs"
    by simp
  then show "ds_jurusan s \<in> record_jurusan d ` set (select_requests d uid)"
    by (auto simp add: row(1) deptStatsData_def)
  show "ds_totalRequests s =
           length (filter (\<lambda>r. record_jurusan d r = ds_jurusan s) (select_requests d uid))"
    by (simp add: row deptStatsData_def filter_map comp_def)
  show "ds_approvedRequests s =
           length (filter (\<lambda>r. record_jurusan d r = ds_jurusan s \<and> rq_status r = Some Approved)
                     (select_requests d uid))"
    by (simp add: row deptStatsData_def filter_map comp_def)
qed

lemma length_filter_conj_le:
  "length (filter (\<lambda>x. P x \<and> Q x) xs) \<le> length (filter P xs)"
  by (induction xs) auto

lemma department_row_counts:
  assumes "s \<in> set (departmentStats d uid)"
  shows "1 \<le> ds_totalRequests s" and "ds_approvedRequests s \<le> ds_totalRequests s"
proof -
  from department_row(1) [OF assms] obtain r where
    "r \<in> set (select_requests d uid)" "record_jurusan d r = ds_jurusan s"
    by auto
  then have "filter (\<lambda>r. record_jurusan d r = ds_jurusan s) (select_requests d uid) \<noteq> []"
    by (auto simp add: filter_empty_conv)
  then show "1 \<le> ds_totalRequests s"
    by (simp add: department_row(2) [OF assms] Suc_le_eq)
  have "length (filter (\<lambda>r. record_jurusan d r = ds_jurusan s \<and> rq_status r = Some Approved)
                     (select_requests d uid))
        \<le> length (filter (\<lambda>r. record_jurusan d r = ds_jurusan s) (select_requests d uid))"
    by (rule length_filter_conj_le)
  then show "ds_approvedRequests s \<le> ds_totalRequests s"
    by (simp add: department_row [OF assms])
qed

lemma department_rows_cover:
  "ds_jurusan ` set (departmentStats d uid) = record_jurusan d ` set (select_requests d uid)"
proof -
  let ?recs = "deptStatsData d uid"
  let ?m = "fold dept_count ?recs []"
  have keys: "\<And>k s. (k, s) \<in> set ?m \<Longrightarrow> ds_jurusan s = k"
    using dept_map [of ?recs] by (metis map_of_is_SomeI)
  have "ds_jurusan ` set (departmentStats d uid) = fst ` set ?m"
    using keys by (force simp add: departmentStats_def image_iff)
  also have "\<dots> = fst ` set ?recs"
    using dept_map [of ?recs] by simp
  also have "\<dots> = record_jurusan d ` set (select_requests d uid)"
    by (force simp add: deptStatsData_def)
  finally show ?thesis .
qed

subsection \<open>Rounding to binary64\<close>

lemma two_powi_less_imp: "(2::rat) powi a < 2 powi b \<Longrightarrow> a < b"
  using power_int_increasing [of b a "2::rat"] by (cases "a < b") auto

lemma two_powi_le_imp: "(2::rat) powi a \<le> 2 powi b \<Longrightarrow> a \<le> b"
  using power_int_strict_increasing [of b a "2::rat"] by (cases "a \<le> b") auto

lemma two_powi_split: "(2::rat) powi (a + b) = 2 powi a * 2 powi b"
  by (simp add: power_int_add)

lemma round_half_even_near:
  assumes "0 < d"
  shows "\<bar>of_int (round_half_even n d) - (of_int n / of_int d :: rat)\<bar> \<le> 1 / 2"
proof -
  define q where "q = n div d"
  define r where "r = n mod d"
  have n: "n = q * d + r" and r: "0 \<le> r" "r < d"
    using assms by (simp_all add: q_def r_def)
  have frac: "(of_int n / of_int d :: rat) = of_int q + of_int r / of_int d"
    using assms by (simp add: n field_simps)
  have d: "(0::rat) < of_int d"
    using assms by simp
  consider "2 * r < d" | "d < 2 * r" | "2 * r = d" by linarith
  then show ?thesis
  proof cases
    case 1
    then have k: "round_half_even n d = q"
      by (simp add: round_half_even_def Let_def q_def r_def)
    have "(of_int (2 * r) :: rat) < of_int d"
      using 1 by (simp only: of_int_less_iff)
    then have hi: "(of_int r / of_int d :: rat) \<le> 1 / 2"
      using d by (simp add: field_simps)
    have lo: "(0::rat) \<le> of_int r / of_int d"
      using r d by simp
    from hi lo show ?thesis
      unfolding k frac by simp
  next
    case 2
    then have k: "round_half_even n d = q + 1"
      by (simp add: round_half_even_def Let_def q_def r_def)
    have "(of_int d :: rat) < of_int (2 * r)"
      using 2 by (simp only: of_int_less_iff)
    then have lo: "(1 / 2 :: rat) \<le> of_int r / of_int d"
      using d by (simp add: field_simps)
    have hi: "(of_int r / of_int d :: rat) \<le> 1"
      using r d by simp
    from hi lo show ?thesis
      unfolding k frac by simp
  next
    case 3
    then have "(of_int (2 * r) :: rat) = of_int d"
      by (simp only:)
    then have half: "(of_int r / of_int d :: rat) = 1 / 2"
      using d by (simp add: field_simps)
    have "round_half_even n d = q \<or> round_half_even n d = q + 1"
      by (simp add: round_half_even_def Let_def q_def r_def)
    then show ?thesis
      unfolding frac half by auto
  qed
qed

lemma scale_ratio:
  assumes "d \<noteq> 0"
  shows "(of_int (if 0 \<le> s then n * 2 ^ nat s else n) :: rat) /
           of_int (if 0 \<le> s then d else d * 2 ^ nat (- s))
         = of_int n / of_int d * 2 powi s"
  using assms by (simp add: power_int_def field_simps)


lemma bitlen_powi_bounds:
  assumes "0 < x"
  shows "(2::rat) powi (bitlen x - 1) \<le> of_int x" and "(of_int x :: rat) < 2 powi (bitlen x)"
proof -
  from bitlen_bounds [OF assms]
  have lo: "2 ^ nat (bitlen x - 1) \<le> x" and hi: "x < 2 ^ nat (bitlen x)"
    by simp_all
  have pos: "1 \<le> bitlen x"
    using assms bitlen_eq_zero_iff [of x] bitlen_nonneg [of x] by linarith
  have "(of_int (2 ^ nat (bitlen x - 1)) :: rat) \<le> of_int x"
    using lo by (simp only: of_int_le_iff)
  then show "(2::rat) powi (bitlen x - 1) \<le> of_int x"
    using pos by (simp add: power_int_def)
  have "(of_int x :: rat) < of_int (2 ^ nat (bitlen x))"
    using hi by (simp only: of_int_less_iff)
  then show "(of_int x :: rat) < 2 powi (bitlen x)"
    using pos by (simp add: power_int_def)
qed

lemma binade_test:
  assumes "0 < d"
  shows "(if 0 \<le> s then n < d * 2 ^ nat s else n * 2 ^ nat (- s) < d)
           \<longleftrightarrow> (of_int n / of_int d :: rat) < 2 powi s"
proof -
  have d: "(0::rat) < of_int d"
    using assms by simp
  show ?thesis
  proof (cases "0 \<le> s")
    case True
    have "n < d * 2 ^ nat s \<longleftrightarrow> (of_int n :: rat) < of_int (d * 2 ^ nat s)"
      by (simp only: of_int_less_iff)
    also have "\<dots> \<longleftrightarrow> (of_int n / of_int d :: rat) < 2 powi s"
      using d True by (simp add: power_int_def field_simps)
    finally show ?thesis
      using True by simp
  next
    case False
    have "n * 2 ^ nat (- s) < d \<longleftrightarrow> (of_int (n * 2 ^ nat (- s)) :: rat) < of_int d"
      by (simp only: of_int_less_iff)
    also have "\<dots> \<longleftrightarrow> (of_int n / of_int d :: rat) < 2 powi s"
      using d False by (simp add: power_int_def field_simps)
    finally show ?thesis
      using False by simp
  qed
qed

lemma binade_bounds:
  assumes "0 < n" "0 < d"
  shows "(2::rat) powi (binade n d) \<le> of_int n / of_int d"
    and "(of_int n / of_int d :: rat) < 2 powi (binade n d + 1)"
proof -
  define e0 where "e0 = bitlen n - bitlen d"
  have d: "(0::rat) < of_int d" and n: "(0::rat) < of_int n"
    using assms by simp_all
  have up: "(of_int n / of_int d :: rat) < 2 powi (e0 + 1)"
  proof -
    have "(of_int n / of_int d :: rat) < 2 powi (bitlen n) / 2 powi (bitlen d - 1)"
      using bitlen_powi_bounds(2) [OF assms(1)] bitlen_powi_bounds(1) [OF assms(2)] d n
      by (intro frac_less) simp_all
    also have "\<dots> = 2 powi (e0 + 1)"
      by (simp add: e0_def power_int_diff [symmetric] algebra_simps)
    finally show ?thesis .
  qed
  have low: "(2::rat) powi (e0 - 1) \<le> of_int n / of_int d"
  proof -
    have "(2::rat) powi (e0 - 1) = 2 powi (bitlen n - 1) / 2 powi (bitlen d)"
      by (simp add: e0_def power_int_diff [symmetric] algebra_simps)
    also have "\<dots> \<le> of_int n / of_int d"
      using bitlen_powi_bounds(1) [OF assms(1)] bitlen_powi_bounds(2) [OF assms(2)] d n
      by (intro frac_le) simp_all
    finally show ?thesis .
  qed
  have "binade n d =
          (if (if 0 \<le> e0 then n < d * 2 ^ nat e0 else n * 2 ^ nat (- e0) < d)
           then e0 - 1 else e0)"
    by (simp add: binade_def Let_def e0_def)
  then have test:
    "binade n d = (if (of_int n / of_int d :: rat) < 2 powi e0 then e0 - 1 else e0)"
    by (simp only: binade_test [OF assms(2)])
  show "(2::rat) powi (binade n d) \<le> of_int n / of_int d"
    using low by (simp add: test)
  show "(of_int n / of_int d :: rat) < 2 powi (binade n d + 1)"
    using up by (simp add: test)
qed


lemma to_double_normal:
  assumes "0 < n" "0 < d" "- 1022 \<le> binade n d" "binade n d < 1023"
  shows "\<exists>k. to_double n d = Finite k (binade n d - 52) \<and>
             \<bar>of_int k * 2 powi (binade n d - 52) - (of_int n / of_int d :: rat)\<bar>
               \<le> 2 powi (binade n d - 53)"
proof -
  define e where "e = binade n d"
  define s where "s = 52 - e"
  define k where "k = (if 0 \<le> s then round_half_even (n * 2 ^ nat s) d
                       else round_half_even n (d * 2 ^ nat (- s)))"
  have smin: "min (52 - e) 1074 = s"
    using assms(3) by (simp add: s_def e_def)
  have td: "to_double n d = Finite k (- s)"
    using assms(1,4) by (simp add: to_double_def Let_def e_def [symmetric] smin k_def)
  have dpos: "0 < (if 0 \<le> s then d else d * 2 ^ nat (- s))"
    using assms(2) by simp
  have "k = round_half_even (if 0 \<le> s then n * 2 ^ nat s else n)
                            (if 0 \<le> s then d else d * 2 ^ nat (- s))"
    by (simp add: k_def)
  with round_half_even_near [OF dpos, of "if 0 \<le> s then n * 2 ^ nat s else n"]
  have "\<bar>of_int k - (of_int (if 0 \<le> s then n * 2 ^ nat s else n) :: rat) /
                      of_int (if 0 \<le> s then d else d * 2 ^ nat (- s))\<bar> \<le> 1 / 2"
    by simp
  then have near: "\<bar>of_int k - (of_int n / of_int d :: rat) * 2 powi s\<bar> \<le> 1 / 2"
    using assms(2) by (simp only: scale_ratio [of d s n])
  have unscale: "(2::rat) powi s * 2 powi (- s) = 1"
    by (simp add: power_int_add [symmetric])
  have "\<bar>of_int k * 2 powi (- s) - (of_int n / of_int d :: rat)\<bar>
          = \<bar>(of_int k - (of_int n / of_int d :: rat) * 2 powi s) * 2 powi (- s)\<bar>"
    using unscale by (simp add: algebra_simps)
  also have "\<dots> = \<bar>of_int k - (of_int n / of_int d :: rat) * 2 powi s\<bar> * 2 powi (- s)"
    by (simp add: abs_mult)
  also have "\<dots> \<le> 1 / 2 * 2 powi (- s)"
    using near by (intro mult_right_mono) simp_all
  also have "\<dots> = 2 powi (- s - 1)"
    by (simp add: power_int_diff)
  finally have "\<bar>of_int k * 2 powi (- s) - (of_int n / of_int d :: rat)\<bar> \<le> 2 powi (- s - 1)" .
  moreover have "- s = e - 52" "- s - 1 = e - 53"
    by (simp_all add: s_def)
  ultimately show ?thesis
    using td by (simp add: e_def)
qed

lemma ratio_of_number:
  "(of_int (numerator k e) :: rat) / of_int (denominator k e) = of_int k * 2 powi e"
  by (cases "0 \<le> e") (simp_all add: numerator_def denominator_def power_int_def field_simps)

lemma denominator_pos: "0 < denominator k e"
  by (simp add: denominator_def)

lemma Math_round_value:
  "Math_round (Finite k e) = Finite \<lfloor>(of_int k * 2 powi e :: rat) + 1 / 2\<rfloor> 0"
proof -
  let ?n = "numerator k e" and ?d = "denominator k e"
  have d: "(0::rat) < of_int ?d"
    using denominator_pos [of k e] by simp
  have "(of_int k * 2 powi e :: rat) + 1 / 2 = of_int (2 * ?n + ?d) / of_int (2 * ?d)"
    using d by (simp add: ratio_of_number [symmetric] field_simps)
  then have "\<lfloor>(of_int k * 2 powi e :: rat) + 1 / 2\<rfloor> = (2 * ?n + ?d) div (2 * ?d)"
    by (simp only: floor_divide_of_int_eq)
  then show ?thesis
    by simp
qed


lemma number_positive:
  assumes "\<bar>of_int k * 2 powi e - (x::rat)\<bar> \<le> y" "y < x"
  shows "0 < k"
proof -
  from assms have "0 < of_int k * (2::rat) powi e"
    by linarith
  moreover have "(0::rat) < 2 powi e"
    by simp
  ultimately have "(0::rat) < of_int k"
    by (rule zero_less_mult_pos2)
  then show ?thesis
    by simp
qed

lemma percent_of_close:
  assumes "0 < a" "a \<le> t" "t < 2 ^ 32"
  shows "\<exists>v::rat. percent_of a t = Finite \<lfloor>v + 1 / 2\<rfloor> 0 \<and>
                  \<bar>v - 100 * of_nat a / of_nat t\<bar> < 2 powi (- 45)"
proof -
  define A where "A = int a"
  define T where "T = int t"
  define q :: rat where "q = of_int A / of_int T"
  have A: "0 < A" and T: "0 < T" and AT: "A \<le> T" and T32: "T < 2 ^ 32"
    using assms by (simp_all add: A_def T_def)
  have Tr: "(0::rat) < of_int T" and Ar: "(1::rat) \<le> of_int A"
    using A T by simp_all
  have ATr: "(of_int A :: rat) \<le> of_int T"
    using AT by (simp only: of_int_le_iff)
  have T32r: "(of_int T :: rat) < 2 ^ 32"
    using T32 by (metis of_int_less_iff of_int_numeral of_int_power)
  have q1: "q \<le> 1"
    using ATr Tr by (simp add: q_def)
  have "1 / (2::rat) ^ 32 < 1 / of_int T"
    using T32r Tr by (intro divide_strict_left_mono) simp_all
  also have "\<dots> \<le> q"
    using Ar Tr by (simp add: q_def divide_right_mono)
  finally have q32: "(2::rat) powi (- 32) < q"
    by (simp add: power_int_minus_divide)

  \<comment> \<open>the quotient\<close>
  define e1 where "e1 = binade A T"
  have b1: "(2::rat) powi e1 \<le> q" "q < 2 powi (e1 + 1)"
    using binade_bounds [OF A T] by (simp_all add: e1_def q_def)
  have "(2::rat) powi e1 \<le> 2 powi 0"
    using b1(1) q1 by simp
  then have e1_hi: "e1 \<le> 0"
    by (rule two_powi_le_imp)
  have "(2::rat) powi (- 32) < 2 powi (e1 + 1)"
    using q32 b1(2) by linarith
  then have e1_lo: "- 32 \<le> e1"
    using two_powi_less_imp [of "- 32" "e1 + 1"] by simp
  from to_double_normal [OF A T] e1_lo e1_hi obtain k1 where
    x1: "to_double A T = Finite k1 (e1 - 52)"
    and err1: "\<bar>of_int k1 * 2 powi (e1 - 52) - q\<bar> \<le> 2 powi (e1 - 53)"
    unfolding e1_def q_def by fastforce
  define v1 :: rat where "v1 = of_int k1 * 2 powi (e1 - 52)"
  have small1: "(2::rat) powi (e1 - 53) \<le> 2 powi (- 53)"
    using e1_hi by (intro power_int_increasing) simp_all
  have err1': "\<bar>v1 - q\<bar> \<le> 2 powi (- 53)"
    using err1 small1 by (simp add: v1_def)
  have "(2::rat) powi (e1 - 53) < 2 powi e1"
    by (intro power_int_strict_increasing) simp_all
  with b1(1) have "(2::rat) powi (e1 - 53) < q"
    by linarith
  from number_positive [OF err1 this] have k1: "0 < k1" .
  have div: "js_divide (of_count a) (of_count t) = Finite k1 (e1 - 52)"
    using T x1 by (simp add: of_count_def numerator_def denominator_def A_def T_def)

  \<comment> \<open>the product\<close>
  define N2 where "N2 = numerator k1 (e1 - 52) * 100"
  define D2 where "D2 = denominator k1 (e1 - 52)"
  have N2: "0 < N2" and D2: "0 < D2"
    using k1 e1_hi by (simp_all add: N2_def D2_def numerator_def denominator_def)
  have ratio2: "(of_int N2 / of_int D2 :: rat) = 100 * v1"
    unfolding N2_def D2_def v1_def ratio_of_number [symmetric] by simp
  have mul: "js_times (Finite k1 (e1 - 52)) (of_count 100) = to_double N2 D2"
    by (simp add: of_count_def N2_def D2_def numerator_def denominator_def)
  define e2 where "e2 = binade N2 D2"
  have b2: "(2::rat) powi e2 \<le> 100 * v1" "100 * v1 < 2 powi (e2 + 1)"
    using binade_bounds [OF N2 D2] by (simp_all add: e2_def ratio2)
  define eps :: rat where "eps = 2 powi (- 53)"
  define low :: rat where "low = 2 powi (- 32)"
  have err1_eps: "\<bar>v1 - q\<bar> \<le> eps" and q_low: "low < q"
    using err1' q32 by (simp_all add: eps_def low_def)
  have v1_hi: "v1 \<le> 1 + eps" and v1_lo: "low - eps < v1"
    using err1_eps q1 q_low by linarith+
  have eps_small: "eps < 1 / 100" "eps * 2 < low" "0 < low"
    by (simp_all add: eps_def low_def)
  from v1_hi eps_small(1) have "100 * v1 < 128"
    by linarith
  then have "100 * v1 < (2::rat) powi 7"
    by simp
  with b2(1) have "(2::rat) powi e2 < 2 powi 7"
    by linarith
  then have e2_hi: "e2 \<le> 6"
    using two_powi_less_imp [of e2 7] by simp
  from v1_lo eps_small(2,3) have "low / 2 < 100 * v1"
    by linarith
  then have "(2::rat) powi (- 33) < 100 * v1"
    by (simp add: low_def)
  with b2(2) have "(2::rat) powi (- 33) < 2 powi (e2 + 1)"
    by linarith
  then have e2_lo: "- 33 \<le> e2"
    using two_powi_less_imp [of "- 33" "e2 + 1"] by simp
  from to_double_normal [OF N2 D2] e2_lo e2_hi obtain k2 where
    x2: "to_double N2 D2 = Finite k2 (e2 - 52)"
    and err2: "\<bar>of_int k2 * 2 powi (e2 - 52) - 100 * v1\<bar> \<le> 2 powi (e2 - 53)"
    unfolding e2_def ratio2 [symmetric] by fastforce
  define v2 :: rat where "v2 = of_int k2 * 2 powi (e2 - 52)"
  have small2: "(2::rat) powi (e2 - 53) \<le> 2 powi (- 47)"
    using e2_hi by (intro power_int_increasing) simp_all
  have err2': "\<bar>v2 - 100 * v1\<bar> \<le> 2 powi (- 47)"
    using err2 small2 by (simp add: v2_def)

  \<comment> \<open>the rounding\<close>
  have "percent_of a t = Math_round (Finite k2 (e2 - 52))"
    by (simp only: percent_of_def div mul x2)
  then have res: "percent_of a t = Finite \<lfloor>v2 + 1 / 2\<rfloor> 0"
    by (simp only: Math_round_value v2_def)
  define eps2 :: rat where "eps2 = 2 powi (- 47)"
  define tol :: rat where "tol = 2 powi (- 45)"
  have err2_eps: "\<bar>v2 - 100 * v1\<bar> \<le> eps2"
    using err2' by (simp add: eps2_def)
  have "eps2 + 100 * eps < tol"
    by (simp add: eps_def eps2_def tol_def)
  with err1_eps err2_eps have "\<bar>v2 - 100 * q\<bar> < tol"
    by linarith
  then have "\<bar>v2 - 100 * q\<bar> < 2 powi (- 45)"
    by (simp only: tol_def)
  moreover have "100 * q = 100 * of_nat a / of_nat t"
    by (simp add: q_def A_def T_def)
  ultimately show ?thesis
    using res by auto
qed


lemma spec_percent_div:
  assumes "0 < t"
  shows "spec_percent a t = (200 * int a + int t) div (2 * int t)"
proof -
  have t: "(0::rat) < of_nat t"
    using assms by simp
  have "(100 * of_nat a / of_nat t :: rat) + 1 / 2
          = of_int (200 * int a + int t) / of_int (2 * int t)"
    using t by (simp add: field_simps)
  then have "\<lfloor>(100 * of_nat a / of_nat t :: rat) + 1 / 2\<rfloor>
               = (200 * int a + int t) div (2 * int t)"
    by (simp only: floor_divide_of_int_eq)
  then show ?thesis
    using assms by (simp add: spec_percent_def round_def)
qed

lemma percent_of_zero: "0 < t \<Longrightarrow> percent_of 0 t = Finite 0 0"
  by (simp add: percent_of_def of_count_def to_double_def numerator_def denominator_def)

lemma percent_of_spec:
  assumes "a \<le> t" "0 < t" "t < 2 ^ 32"
  shows "\<exists>p. percent_of a t = Finite p 0 \<and>
             (p = spec_percent a t \<or> p = spec_percent a t - 1) \<and>
             (\<not> 2 * t dvd 200 * a + t \<longrightarrow> p = spec_percent a t)"
proof (cases "a = 0")
  case True
  have "spec_percent 0 t = 0"
    using assms(2) by (simp add: spec_percent_div)
  with True assms(2) show ?thesis
    by (simp add: percent_of_zero)
next
  case False
  then have "0 < a" by simp
  from percent_of_close [OF this assms(1,3)] obtain v :: rat where
    res: "percent_of a t = Finite \<lfloor>v + 1 / 2\<rfloor> 0"
    and close: "\<bar>v - 100 * of_nat a / of_nat t\<bar> < 2 powi (- 45)"
    by blast
  define N where "N = 200 * int a + int t"
  define M where "M = 2 * int t"
  define R where "R = N div M"
  define r where "r = N mod M"
  have M: "0 < M" and M33: "M < 2 ^ 33"
    using assms(2,3) by (simp_all add: M_def)
  have r: "0 \<le> r" "r < M" and N: "N = M * R + r"
    using M by (simp_all add: r_def R_def)
  have spec: "spec_percent a t = R"
    using assms(2) by (simp add: spec_percent_div R_def N_def M_def)
  have Mr: "(0::rat) < of_int M"
    using M by simp
  have "(of_int M :: rat) < 2 ^ 33"
    using M33 by (metis of_int_less_iff of_int_numeral of_int_power)
  then have "1 / (2::rat) ^ 33 < 1 / of_int M"
    using Mr by (intro divide_strict_left_mono) simp_all
  moreover have "(2::rat) powi (- 45) < 1 / 2 ^ 33"
    by simp
  ultimately have tol: "(2::rat) powi (- 45) < 1 / of_int M"
    by linarith
  define x :: rat where "x = 100 * of_nat a / of_nat t + 1 / 2"
  have "x = of_int N / of_int M"
    using assms(2) by (simp add: x_def N_def M_def field_simps)
  also have "\<dots> = of_int R + of_int r / of_int M"
    using Mr by (simp add: N field_simps)
  finally have x: "x = of_int R + of_int r / of_int M" .
  define g :: rat where "g = 1 / of_int M"
  define tol' :: rat where "tol' = 2 powi (- 45)"
  have g: "0 < g" "tol' < g" "g \<le> 1"
    using Mr tol M by (simp_all add: g_def tol'_def)
  have frac: "of_int r / of_int M = of_int r * g"
    by (simp add: g_def)
  have "r \<le> M - 1"
    using r(2) by simp
  then have "(of_int r :: rat) \<le> of_int (M - 1)"
    by (simp only: of_int_le_iff)
  then have "of_int r * g \<le> of_int (M - 1) * g"
    using g(1) by (intro mult_right_mono) simp_all
  also have "\<dots> = 1 - g"
    using Mr by (simp add: g_def field_simps)
  finally have r_hi: "of_int r * g \<le> 1 - g" .
  have r_lo: "0 \<le> of_int r * g"
    using r(1) g(1) by simp
  have vx: "\<bar>(v + 1 / 2) - x\<bar> < tol'"
    using close by (simp add: x_def tol'_def)
  have up: "v + 1 / 2 < of_int R + 1"
    using vx x frac r_hi g by linarith
  have "of_int R - 1 \<le> v + 1 / 2"
    using vx x frac r_lo g by linarith
  then have down: "of_int (R - 1) \<le> v + 1 / 2"
    by simp
  have "v + 1 / 2 < of_int (R + 1)"
    using up by simp
  then have "\<lfloor>v + 1 / 2\<rfloor> < R + 1"
    by (simp only: floor_less_iff)
  moreover have "R - 1 \<le> \<lfloor>v + 1 / 2\<rfloor>"
    using down by (simp only: le_floor_iff)
  moreover have "R \<le> \<lfloor>v + 1 / 2\<rfloor>" if "\<not> 2 * t dvd 200 * a + t"
  proof -
    have "\<not> M dvd N"
      using that unfolding M_def N_def
      by (metis (mono_tags, opaque_lifting) int_dvd_int_iff of_nat_add of_nat_mult of_nat_numeral)
    then have "r \<noteq> 0"
      using M by (simp add: r_def dvd_eq_mod_eq_0)
    with r(1) have "1 \<le> r"
      by simp
    then have "(of_int 1 :: rat) \<le> of_int r"
      by (simp only: of_int_le_iff)
    then have "1 * g \<le> of_int r * g"
      using g(1) by (intro mult_right_mono) simp_all
    then have "g \<le> of_int r * g"
      by simp
    then have "of_int R \<le> v + 1 / 2"
      using vx x frac g by linarith
    then show ?thesis
      by (simp only: le_floor_iff)
  qed
  ultimately show ?thesis
    unfolding res spec by auto
qed

subsection \<open>The report's percentages\<close>

lemma to_double_finite:
  assumes "0 \<le> n" "0 < d" "n \<le> d"
  shows "\<exists>k e. to_double n d = Finite k e"
proof (cases "n = 0")
  case True
  then show ?thesis by (simp add: to_double_def)
next
  case False
  with assms(1) have n: "0 < n" by simp
  have "(of_int n / of_int d :: rat) \<le> 1"
    using assms(2,3) by simp
  with binade_bounds(1) [OF n assms(2)] have "(2::rat) powi (binade n d) \<le> 2 powi 0"
    by simp
  then have "binade n d \<le> 0"
    by (rule two_powi_le_imp)
  then show ?thesis
    by (simp add: to_double_def Let_def)
qed

lemma quotient_finite:
  assumes "a \<le> t" "0 < t"
  shows "\<exists>k e. js_divide (of_count a) (of_count t) = Finite k e"
  using assms to_double_finite [of "int a" "int t"]
  by (simp add: of_count_def numerator_def denominator_def)

lemma length_filter_bound: "length xs < n \<Longrightarrow> length (filter P xs) < n"
  using length_filter_le [of P xs] by linarith

lemma ledger_10_6:
  "length (select_requests (ledger_of 10 6) (Some admin_id)) = 10"
  "bs_totalRequests (report_stats (ledger_of 10 6) (Some admin_id) 1736640000000) = 10"
  "bs_approvedRequests (report_stats (ledger_of 10 6) (Some admin_id) 1736640000000) = 6"
  "departmentStats (ledger_of 10 6) (Some admin_id)
     = [\<lparr> ds_jurusan = ''ti'', ds_totalRequests = 10, ds_approvedRequests = 6 \<rparr>]"
  by code_simp+

lemma ledger_0_0:
  "length (select_requests (ledger_of 0 0) (Some admin_id)) = 0"
  "bs_totalRequests (report_stats (ledger_of 0 0) (Some admin_id) 1736640000000) = 0"
  by code_simp+

lemma ledger_40_23:
  "report_stats (ledger_of 40 23) (Some admin_id) 1736640000000
     = \<lparr> bs_totalRequests = 40, bs_approvedRequests = 23, bs_rejectedRequests = 0,
         bs_activeLoans = 23, bs_returnedItems = 0, bs_overdueItems = 23 \<rparr>"
  "departmentStats (ledger_of 40 23) (Some admin_id)
     = [\<lparr> ds_jurusan = ''ti'', ds_totalRequests = 40, ds_approvedRequests = 23 \<rparr>]"
  by code_simp+

lemma percent_23_40: "percent_of 23 40 = Finite 57 0" "spec_percent 23 40 = 58"
  by code_simp+

text \<open>
  C10. Every row of the per-department table stands for a department that at least one
  of the requests read belongs to: its total is the number of those requests, which is
  at least 1, its approved count is no more than its total, and the quotient
  \<open>approvedRequests / totalRequests\<close> is a finite number (neither \<open>NaN\<close> nor
  \<open>Infinity\<close>, which a division by 0 gives). The departments of the rows are exactly
  the departments of the requests read, so a department without a request has no row.
\<close>

theorem department_rows_have_requests:
  "(\<forall>s \<in> set (departmentStats d uid).
      1 \<le> ds_totalRequests s \<and>
      ds_totalRequests s =
        length (filter (\<lambda>r. record_jurusan d r = ds_jurusan s) (select_requests d uid)) \<and>
      ds_approvedRequests s \<le> ds_totalRequests s \<and>
      (\<exists>k e. js_divide (of_count (ds_approvedRequests s)) (of_count (ds_totalRequests s))
               = Finite k e)) \<and>
   ds_jurusan ` set (departmentStats d uid) = record_jurusan d ` set (select_requests d uid)"
proof (intro conjI ballI)
  fix s
  assume s: "s \<in> set (departmentStats d uid)"
  show one: "1 \<le> ds_totalRequests s"
    by (rule department_row_counts(1) [OF s])
  show "ds_totalRequests s =
        length (filter (\<lambda>r. record_jurusan d r = ds_jurusan s) (select_requests d uid))"
    by (rule department_row(2) [OF s])
  show le: "ds_approvedRequests s \<le> ds_totalRequests s"
    by (rule department_row_counts(2) [OF s])
  show "\<exists>k e. js_divide (of_count (ds_approvedRequests s)) (of_count (ds_totalRequests s))
               = Finite k e"
    using le one by (intro quotient_finite) simp_all
next
  show "ds_jurusan ` set (departmentStats d uid)
          = record_jurusan d ` set (select_requests d uid)"
    by (rule department_rows_cover)
qed

theorem department_rows_have_requests_witness:
  "departmentStats sample_db (Some admin_id) =
     [\<lparr> ds_jurusan = ''ti'', ds_totalRequests = 1, ds_approvedRequests = 0 \<rparr>,
      \<lparr> ds_jurusan = ''trkj'', ds_totalRequests = 1, ds_approvedRequests = 0 \<rparr>] \<and>
   map (record_jurusan sample_db) (select_requests sample_db (Some admin_id))
     = [''ti'', ''trkj''] \<and>
   ''trmm'' \<notin> ds_jurusan ` set (departmentStats sample_db (Some admin_id)) \<and>
   1 \<le> ds_totalRequests (hd (departmentStats sample_db (Some admin_id))) \<and>
   js_divide (of_count (ds_approvedRequests (hd (departmentStats sample_db (Some admin_id)))))
             (of_count (ds_totalRequests (hd (departmentStats sample_db (Some admin_id)))))
     = Finite 0 0"
proof -
  have rows: "departmentStats sample_db (Some admin_id) =
     [\<lparr> ds_jurusan = ''ti'', ds_totalRequests = 1, ds_approvedRequests = 0 \<rparr>,
      \<lparr> ds_jurusan = ''trkj'', ds_totalRequests = 1, ds_approvedRequests = 0 \<rparr>]"
    by code_simp
  have recs: "map (record_jurusan sample_db) (select_requests sample_db (Some admin_id))
     = [''ti'', ''trkj'']"
    by code_simp
  have q: "js_divide (of_count 0) (of_count 1) = Finite 0 0"
    by code_simp
  from recs have img: "record_jurusan sample_db ` set (select_requests sample_db (Some admin_id))
                  = {''ti'', ''trkj''}"
    by (metis (no_types, lifting) list.set_map list.simps(15) empty_set)
  from department_rows_have_requests [of sample_db "Some admin_id"] rows recs q img
  show ?thesis
    by simp
qed

text \<open>
  C6, as the code has it. The percentage shown is \<open>Math.round\<close> of the binary64
  product \<open>(approved / total) * 100\<close>, the quotient rounded first. For a list of
  fewer than \<open>2 ^ 32\<close> requests (the bound of a JavaScript array) it is the
  specification's \<open>round(100 * approved / total)\<close> or one less, and it is that
  number whenever \<open>100 * approved / total\<close> is not exactly halfway between two
  integers; this holds for the card of the overall rate, which shows 0 when there is no
  request, and for every row of the per-department table.
\<close>

theorem percentages_round_the_double_product:
  assumes "length (select_requests d uid) < 2 ^ 32"
  shows
    "(bs_totalRequests (report_stats d uid now) = 0 \<longrightarrow>
        approved_percent (report_stats d uid now) = Finite 0 0) \<and>
     (\<exists>p. approved_percent (report_stats d uid now) = Finite p 0 \<and>
          (p = spec_percent (bs_approvedRequests (report_stats d uid now))
                 (bs_totalRequests (report_stats d uid now)) \<or>
           p = spec_percent (bs_approvedRequests (report_stats d uid now))
                 (bs_totalRequests (report_stats d uid now)) - 1) \<and>
          (\<not> 2 * bs_totalRequests (report_stats d uid now)
               dvd 200 * bs_approvedRequests (report_stats d uid now)
                   + bs_totalRequests (report_stats d uid now) \<longrightarrow>
           p = spec_percent (bs_approvedRequests (report_stats d uid now))
                 (bs_totalRequests (report_stats d uid now)))) \<and>
     (\<forall>s \<in> set (departmentStats d uid).
        \<exists>p. dept_percent s = Finite p 0 \<and>
            (p = spec_percent (ds_approvedRequests s) (ds_totalRequests s) \<or>
             p = spec_percent (ds_approvedRequests s) (ds_totalRequests s) - 1) \<and>
            (\<not> 2 * ds_totalRequests s dvd 200 * ds_approvedRequests s + ds_totalRequests s \<longrightarrow>
             p = spec_percent (ds_approvedRequests s) (ds_totalRequests s)))"
proof (intro conjI ballI impI)
  define A where "A = bs_approvedRequests (report_stats d uid now)"
  define T where "T = bs_totalRequests (report_stats d uid now)"
  have AT: "A \<le> T" and T32: "T < 2 ^ 32"
    using assms by (simp_all add: A_def T_def report_stats_def Let_def)
  show "approved_percent (report_stats d uid now) = Finite 0 0"
    if "bs_totalRequests (report_stats d uid now) = 0"
    using that by (simp add: approved_percent_def)
  have "\<exists>p. approved_percent (report_stats d uid now) = Finite p 0 \<and>
          (p = spec_percent A T \<or> p = spec_percent A T - 1) \<and>
          (\<not> 2 * T dvd 200 * A + T \<longrightarrow> p = spec_percent A T)"
  proof (cases "T = 0")
    case True
    then show ?thesis
      by (simp add: approved_percent_def T_def [symmetric] spec_percent_def)
  next
    case False
    then have "0 < T" by simp
    from percent_of_spec [OF AT this T32] False show ?thesis
      by (simp add: approved_percent_def T_def [symmetric] A_def [symmetric])
  qed
  then show "\<exists>p. approved_percent (report_stats d uid now) = Finite p 0 \<and>
          (p = spec_percent (bs_approvedRequests (report_stats d uid now))
                 (bs_totalRequests (report_stats d uid now)) \<or>
           p = spec_percent (bs_approvedRequests (report_stats d uid now))
                 (bs_totalRequests (report_stats d uid now)) - 1) \<and>
          (\<not> 2 * bs_totalRequests (report_stats d uid now)
               dvd 200 * bs_approvedRequests (report_stats d uid now)
                   + bs_totalRequests (report_stats d uid now) \<longrightarrow>
           p = spec_percent (bs_approvedRequests (report_stats d uid now))
                 (bs_totalRequests (report_stats d uid now)))"
    by (simp only: A_def T_def)
next
  fix s
  assume s: "s \<in> set (departmentStats d uid)"
  have le: "ds_approvedRequests s \<le> ds_totalRequests s" and pos: "0 < ds_totalRequests s"
    using department_row_counts [OF s] by simp_all
  have "ds_totalRequests s < 2 ^ 32"
    unfolding department_row(2) [OF s] using assms by (rule length_filter_bound)
  from percent_of_spec [OF le pos this]
  show "\<exists>p. dept_percent s = Finite p 0 \<and>
            (p = spec_percent (ds_approvedRequests s) (ds_totalRequests s) \<or>
             p = spec_percent (ds_approvedRequests s) (ds_totalRequests s) - 1) \<and>
            (\<not> 2 * ds_totalRequests s dvd 200 * ds_approvedRequests s + ds_totalRequests s \<longrightarrow>
             p = spec_percent (ds_approvedRequests s) (ds_totalRequests s))"
    by (simp only: dept_percent_def)
qed

theorem percentages_round_the_double_product_witness:
  "length (select_requests (ledger_of 10 6) (Some admin_id)) < 2 ^ 32 \<and>
   bs_totalRequests (report_stats (ledger_of 10 6) (Some admin_id) 1736640000000) = 10 \<and>
   bs_approvedRequests (report_stats (ledger_of 10 6) (Some admin_id) 1736640000000) = 6 \<and>
   \<not> (2 * 10 :: nat) dvd 200 * 6 + 10 \<and>
   spec_percent 6 10 = 60 \<and>
   approved_percent (report_stats (ledger_of 10 6) (Some admin_id) 1736640000000)
     = Finite 60 0 \<and>
   map dept_percent (departmentStats (ledger_of 10 6) (Some admin_id)) = [Finite 60 0] \<and>
   length (select_requests (ledger_of 0 0) (Some admin_id)) < 2 ^ 32 \<and>
   bs_totalRequests (report_stats (ledger_of 0 0) (Some admin_id) 1736640000000) = 0 \<and>
   approved_percent (report_stats (ledger_of 0 0) (Some admin_id) 1736640000000) = Finite 0 0"
proof -
  have len: "length (select_requests (ledger_of 10 6) (Some admin_id)) < 2 ^ 32"
    by (simp only: ledger_10_6(1)) simp
  have len0: "length (select_requests (ledger_of 0 0) (Some admin_id)) < 2 ^ 32"
    by (simp only: ledger_0_0(1)) simp
  have no_tie: "\<not> (2 * 10 :: nat) dvd 200 * 6 + 10"
    by simp
  have spec: "spec_percent 6 10 = 60"
    by code_simp
  note t = percentages_round_the_double_product [OF len, of 1736640000000]
  note t0 = percentages_round_the_double_product [OF len0, of 1736640000000]
  from t have "\<exists>p. approved_percent (report_stats (ledger_of 10 6) (Some admin_id) 1736640000000)
                      = Finite p 0 \<and>
                    (\<not> (2 * 10 :: nat) dvd 200 * 6 + 10 \<longrightarrow> p = spec_percent 6 10)"
    unfolding ledger_10_6(2,3) by blast
  with no_tie spec
  have a: "approved_percent (report_stats (ledger_of 10 6) (Some admin_id) 1736640000000)
             = Finite 60 0"
    by auto
  from t have "\<forall>s \<in> set [\<lparr> ds_jurusan = ''ti'', ds_totalRequests = 10,
                              ds_approvedRequests = 6 \<rparr>].
                 \<exists>p. dept_percent s = Finite p 0 \<and>
            (p = spec_percent (ds_approvedRequests s) (ds_totalRequests s) \<or>
             p = spec_percent (ds_approvedRequests s) (ds_totalRequests s) - 1) \<and>
            (\<not> 2 * ds_totalRequests s dvd 200 * ds_approvedRequests s + ds_totalRequests s \<longrightarrow>
             p = spec_percent (ds_approvedRequests s) (ds_totalRequests s))"
    unfolding ledger_10_6(4) by (rule conjunct2 [THEN conjunct2])
  then have "\<exists>p. dept_percent \<lparr> ds_jurusan = ''ti'', ds_totalRequests = 10,
                                  ds_approvedRequests = 6 \<rparr> = Finite p 0 \<and>
                  (\<not> (2 * 10 :: nat) dvd 200 * 6 + 10 \<longrightarrow> p = spec_percent 6 10)"
    by simp
  with no_tie spec
  have "dept_percent \<lparr> ds_jurusan = ''ti'', ds_totalRequests = 10,
                        ds_approvedRequests = 6 \<rparr> = Finite 60 0"
    by auto
  then have b: "map dept_percent (departmentStats (ledger_of 10 6) (Some admin_id))
                  = [Finite 60 0]"
    by (simp only: ledger_10_6(4) list.map)
  from t0 ledger_0_0(2)
  have c: "approved_percent (report_stats (ledger_of 0 0) (Some admin_id) 1736640000000)
             = Finite 0 0"
    by (simp only: simp_thms)
  from a b c len len0 ledger_10_6(2,3) ledger_0_0(2) no_tie spec show ?thesis
    by (simp only: simp_thms)
qed

text \<open>
  C6 as stated fails: of 40 requests 23 are approved, \<open>100 * 23 / 40\<close> is 57.5 and
  rounds to 58; the quotient \<open>23 / 40\<close> rounded to binary64 and multiplied by 100
  is below 57.5, and the page shows 57, on the card and in the department's row.
\<close>

theorem percentage_of_23_in_40_counterexample:
  "bs_totalRequests (report_stats (ledger_of 40 23) (Some admin_id) 1736640000000) = 40 \<and>
   bs_approvedRequests (report_stats (ledger_of 40 23) (Some admin_id) 1736640000000) = 23 \<and>
   spec_percent 23 40 = 58 \<and>
   approved_percent (report_stats (ledger_of 40 23) (Some admin_id) 1736640000000)
     = Finite 57 0 \<and>
   map dept_percent (departmentStats (ledger_of 40 23) (Some admin_id)) = [Finite 57 0]"
  by (simp add: ledger_40_23 percent_23_40 approved_percent_def dept_percent_def)

end
